theory Spec2Isabelle
  imports Main "HOL-Library.Stream" "HOL-Library.Sublist"
begin

section \<open>Shared vocabulary: errors, randomness, strings, time\<close>

text \<open>
  The generator is \<^verbatim>\<open>examples/mega-repos/generate_mega_repos.py\<close>. Python exceptions
  are values of the datatype below (\<open>Inl\<close> of a sum); Python's unbounded integers are
  \<open>int\<close>, lengths and indices that the code never lets go negative are \<open>nat\<close>.
\<close>

datatype error = IndexError | ValueError | KeyError | ZeroDivisionError
  | FileExistsError | FileNotFoundError | NotADirectoryError | IsADirectoryError

text \<open>
  The module-global generator of \<^verbatim>\<open>random\<close> is an explicit state: an unending stream of
  raw draws. Each library call consumes one raw draw and maps it into the range the
  library promises: \<^verbatim>\<open>randint(a, b)\<close> yields every integer of \<open>[a, b]\<close> and nothing else,
  \<^verbatim>\<open>choice(xs)\<close> yields an element of \<open>xs\<close> and raises IndexError on an empty sequence.
  All call sites of \<^verbatim>\<open>randint\<close> pass literal bounds with \<open>a \<le> b\<close>.
\<close>

type_synonym rng = "nat stream"

definition randint :: "int \<Rightarrow> int \<Rightarrow> rng \<Rightarrow> int \<times> rng" where
  "randint a b g = (a + int (shd g mod nat (b - a + 1)), stl g)"

definition choice :: "'a list \<Rightarrow> rng \<Rightarrow> error + ('a \<times> rng)" where
  "choice xs g = (if xs = [] then Inl IndexError else Inr (xs ! (shd g mod length xs), stl g))"

text \<open>
  \<^verbatim>\<open>datetime\<close> values are microseconds on an unbounded integer time line;
  \<^verbatim>\<open>timedelta(days=d)\<close> and \<^verbatim>\<open>timedelta(hours=h)\<close> are the corresponding offsets.
\<close>

definition timedelta_days :: "int \<Rightarrow> int" where
  "timedelta_days d = d * 86400000000"

definition timedelta_hours :: "int \<Rightarrow> int" where
  "timedelta_hours h = h * 3600000000"

text \<open>\<^verbatim>\<open>sub in s\<close> on strings, \<^verbatim>\<open>s.startswith(p)\<close>, \<^verbatim>\<open>str(n)\<close> and \<^verbatim>\<open>'\n'.join(code)\<close>.\<close>

fun str_contains :: "string \<Rightarrow> string \<Rightarrow> bool" where
  "str_contains sub [] = (sub = [])"
| "str_contains sub (c # cs) = (prefix sub (c # cs) \<or> str_contains sub cs)"

definition startswith :: "string \<Rightarrow> string \<Rightarrow> bool" where
  "startswith s p = prefix p s"

definition digit_char :: "nat \<Rightarrow> char" where
  "digit_char d = ''0123456789'' ! (d mod 10)"

fun str_of_nat :: "nat \<Rightarrow> string" where
  "str_of_nat n = (if n < 10 then [digit_char n] else str_of_nat (n div 10) @ [digit_char (n mod 10)])"

declare str_of_nat.simps [simp del]

fun join_nl :: "string list \<Rightarrow> string" where
  "join_nl [] = []"
| "join_nl [l] = l"
| "join_nl (l # ls) = l @ [CHR 0x0A] @ join_nl ls"

text \<open>
  \<^verbatim>\<open>template.format(arg)\<close> for the templates of the commit table: the first \<^verbatim>\<open>{}\<close> is
  replaced by the argument, a template without a placeholder is returned as it is.
\<close>

fun str_format :: "string \<Rightarrow> string \<Rightarrow> string" where
  "str_format [] a = []"
| "str_format [c] a = [c]"
| "str_format (c # d # cs) a =
     (if c = CHR ''{'' \<and> d = CHR ''}'' then a @ cs else c # str_format (d # cs) a)"

section \<open>The generator object\<close>

text \<open>The fields that \<^verbatim>\<open>RepoGenerator.__init__\<close> sets.\<close>

record RepoGenerator =
  repo_id :: nat
  category :: string
  template :: string
  base_path :: string
  repo_name :: string
  repo_path :: string
  language :: string
  lines_of_code :: int
  num_commits :: int
  num_contributors :: int
  contributors :: "(string \<times> string) list"
  test_coverage :: int

text \<open>
  The module tables. A weight of \<^verbatim>\<open>LANGUAGES\<close> is kept in hundredths (\<^verbatim>\<open>0.30\<close> is 30),
  so that the weighted draw is exact integer arithmetic; the weights add up to 100.
\<close>

definition LANGUAGES :: "(string \<times> nat \<times> string list) list" where
  "LANGUAGES =
    [(''python'', 30, [''.py'']),
     (''javascript'', 25, [''.js'', ''.jsx'']),
     (''typescript'', 20, [''.ts'', ''.tsx'']),
     (''java'', 10, [''.java'']),
     (''go'', 5, [''.go'']),
     (''rust'', 3, [''.rs'']),
     (''ruby'', 3, [''.rb'']),
     (''php'', 2, [''.php'']),
     (''c#'', 2, [''.cs''])]"

definition CONTRIBUTORS :: "(string \<times> string) list" where
  "CONTRIBUTORS =
    [(''John Smith'', ''john.smith@example.com''),
     (''Sarah Johnson'', ''sarah.j@example.com''),
     (''Michael Chen'', ''mchen@example.com''),
     (''Emily Davis'', ''emily.d@example.com''),
     (''David Wilson'', ''dwilson@example.com''),
     (''Maria Garcia'', ''mgarcia@example.com''),
     (''James Brown'', ''jbrown@example.com''),
     (''Lisa Anderson'', ''landerson@example.com''),
     (''Robert Taylor'', ''rtaylor@example.com''),
     (''Jennifer Martinez'', ''jmartinez@example.com''),
     (''William Lee'', ''wlee@example.com''),
     (''Jessica White'', ''jwhite@example.com''),
     (''Daniel Thomas'', ''dthomas@example.com''),
     (''Ashley Moore'', ''amoore@example.com''),
     (''Christopher Jackson'', ''cjackson@example.com'')]"

text \<open>
  \<^verbatim>\<open>random.choices(population, weights=weights)[0]\<close>: a point of the total weight is
  drawn and the first entry whose cumulative weight exceeds it is returned (the last
  entry if none does).
\<close>

fun pick_weighted :: "('a \<times> nat) list \<Rightarrow> nat \<Rightarrow> 'a \<Rightarrow> 'a" where
  "pick_weighted [] r dflt = dflt"
| "pick_weighted ((k, w) # rest) r dflt =
     (if r < w then k else pick_weighted rest (r - w) k)"

definition select_language :: "rng \<Rightarrow> string \<times> rng" where
  "select_language g =
    (let weights = map (\<lambda>l. (fst l, fst (snd l))) LANGUAGES
     in (pick_weighted weights (shd g mod sum_list (map snd weights)) [], stl g))"

text \<open>
  \<^verbatim>\<open>random.sample(population, k)\<close>: \<open>k\<close> entries at distinct positions, a ValueError when
  the population is smaller than \<open>k\<close>.
\<close>

fun sample :: "'a list \<Rightarrow> nat \<Rightarrow> rng \<Rightarrow> error + ('a list \<times> rng)" where
  "sample pool 0 g = Inr ([], g)"
| "sample pool (Suc k) g =
     (if pool = [] then Inl ValueError
      else (let i = shd g mod length pool in
            case sample (take i pool @ drop (Suc i) pool) k (stl g) of
              Inl e \<Rightarrow> Inl e
            | Inr (xs, g') \<Rightarrow> Inr (pool ! i # xs, g')))"

text \<open>\<^verbatim>\<open>f"{repo_id:05d}"\<close>: decimal, padded with zeros on the left to five characters.\<close>

definition zfill5 :: "nat \<Rightarrow> string" where
  "zfill5 n = replicate (5 - length (str_of_nat n)) (CHR ''0'') @ str_of_nat n"

text \<open>
  \<^verbatim>\<open>Path(a) / b\<close>: an absolute right operand replaces the left one, otherwise the two are
  joined by a slash.
\<close>

definition path_join :: "string \<Rightarrow> string \<Rightarrow> string" where
  "path_join a b = (if prefix ''/'' b then b else a @ ''/'' @ b)"

text \<open>\<^verbatim>\<open>RepoGenerator.__init__\<close>, the draws in the order of the assignments.\<close>

definition init :: "nat \<Rightarrow> string \<Rightarrow> string \<Rightarrow> string \<Rightarrow> rng \<Rightarrow> error + (RepoGenerator \<times> rng)" where
  "init rid cat tmpl base g =
    (let name = ''repo-'' @ zfill5 rid @ ''-'' @ tmpl;
         lg = select_language g;
         loc = randint 1000 50000 (snd lg);
         nc = randint 100 500 (snd loc);
         nk = randint 1 (min 5 (int (length CONTRIBUTORS))) (snd nc)
     in case sample CONTRIBUTORS (nat (fst nk)) (snd nk) of
          Inl e \<Rightarrow> Inl e
        | Inr (cs, g5) \<Rightarrow>
            (let tc = randint 20 90 g5
             in Inr (\<lparr>repo_id = rid, category = cat, template = tmpl, base_path = base,
                       repo_name = name, repo_path = path_join base name,
                       language = fst lg, lines_of_code = fst loc, num_commits = fst nc,
                       num_contributors = fst nk, contributors = cs,
                       test_coverage = fst tc\<rparr>, snd tc)))"

section \<open>Commit history\<close>

record commit =
  date :: int
  message :: string
  author :: "string \<times> string"
  files :: "string list"

definition commit_types :: "(string \<times> string) list" where
  "commit_types =
    [(''feat'', ''Add {}''),
     (''fix'', ''Fix bug in {}''),
     (''refactor'', ''Refactor {}''),
     (''docs'', ''Update documentation for {}''),
     (''test'', ''Add tests for {}''),
     (''chore'', ''Update dependencies'')]"

text \<open>
  The result of \<^verbatim>\<open>os.walk(self.repo_path)\<close> is a list of (directory relative to the
  repository, file name) pairs, the top directory being the empty string; the two
  nested loops keep every file whose name does not start with \<^verbatim>\<open>.git\<close> and record its
  path relative to the repository.
\<close>

definition relpath :: "string \<times> string \<Rightarrow> string" where
  "relpath e = (if fst e = [] then snd e else fst e @ ''/'' @ snd e)"

definition collect_files :: "(string \<times> string) list \<Rightarrow> string list" where
  "collect_files walked = map relpath (filter (\<lambda>e. \<not> startswith (snd e) ''.git'') walked)"

text \<open>
  \<^verbatim>\<open>files_per_commit = len(all_files) // (self.num_commits - 10) if self.num_commits > 10 else 1\<close>
  followed by \<^verbatim>\<open>files_per_commit = max(1, files_per_commit)\<close>. The quotient is taken over
  a positive divisor and a non-negative length, so the value is a natural number.
\<close>

definition files_per_commit :: "int \<Rightarrow> nat \<Rightarrow> nat" where
  "files_per_commit nc n = max 1 (if nc > 10 then nat (int n div (nc - 10)) else 1)"

text \<open>\<^verbatim>\<open>files_in_commit[0].split('/')[0] if '/' in files_in_commit[0] else 'core'\<close>\<close>

definition component_of :: "string \<Rightarrow> string" where
  "component_of f = (if CHR ''/'' \<in> set f then takeWhile (\<lambda>c. c \<noteq> CHR ''/'') f else ''core'')"

text \<open>
  The \<^verbatim>\<open>while\<close> loop of \<^verbatim>\<open>_create_commit_history\<close>. Its state is the commit list, the
  file index, the running date and the random generator. The branch taken when the
  slice is empty leaves the state as it was (apart from the draw already made), as the
  source does; a run that never leaves the loop is the value \<open>None\<close>.
\<close>

partial_function (option) commit_loop ::
  "RepoGenerator \<Rightarrow> string list \<Rightarrow> nat \<Rightarrow> commit list \<Rightarrow> nat \<Rightarrow> int \<Rightarrow> rng
     \<Rightarrow> (error + commit list) option" where
  "commit_loop self all_files fpc commits file_index current_date g =
    (if file_index < length all_files \<and> int (length commits) < num_commits self then
       (case choice commit_types g of
          Inl e \<Rightarrow> Some (Inl e)
        | Inr (ct, g1) \<Rightarrow>
            (let files_in_commit = take fpc (drop file_index all_files) in
             if files_in_commit \<noteq> [] then
               (case choice (contributors self) g1 of
                  Inl e \<Rightarrow> Some (Inl e)
                | Inr (a, g2) \<Rightarrow>
                    (let component = component_of (hd files_in_commit);
                         msg = fst ct @ '': '' @ str_format (snd ct) component;
                         hg = randint 1 48 g2
                     in commit_loop self all_files fpc
                          (commits @ [\<lparr>date = current_date, message = msg, author = a,
                                       files = files_in_commit\<rparr>])
                          (file_index + fpc)
                          (current_date + timedelta_hours (fst hg))
                          (snd hg)))
             else commit_loop self all_files fpc commits file_index current_date g1))
     else Some (Inr commits))"

text \<open>
  The scheduling part of \<^verbatim>\<open>_create_commit_history\<close>: the start date, the initial commit
  (whose author is \<^verbatim>\<open>self.contributors[0]\<close>, an IndexError on an empty list), the walk, the
  batch size and the loop. \<open>now\<close> is the value of \<^verbatim>\<open>datetime.now()\<close>. The replay of the
  list through \<^verbatim>\<open>git\<close> subprocesses does not change the list and is not part of the model.
\<close>

definition create_commit_history ::
  "RepoGenerator \<Rightarrow> int \<Rightarrow> (string \<times> string) list \<Rightarrow> rng \<Rightarrow> (error + commit list) option" where
  "create_commit_history self now walked g =
    (let start_date = now - timedelta_days 365 in
     case contributors self of
       [] \<Rightarrow> Some (Inl IndexError)
     | c0 # _ \<Rightarrow>
         (let commits = [\<lparr>date = start_date, message = ''Initial commit'', author = c0,
                          files = [''.gitignore'', ''README.md'']\<rparr>];
              all_files = collect_files walked;
              fpc = files_per_commit (num_commits self) (length all_files);
              current_date = start_date + timedelta_days 1
          in commit_loop self all_files fpc commits 0 current_date g))"

section \<open>Choice of the project structure\<close>

text \<open>
  \<^verbatim>\<open>_generate_structure\<close> is a chain of substring tests on \<^verbatim>\<open>self.template\<close> and
  \<^verbatim>\<open>self.category\<close>; each branch calls one structure method. The datatype names the
  method called.
\<close>

datatype archetype = Web | Microservice | Cli | Library | Mobile | Game | Data | Enterprise

definition generate_structure_branch :: "RepoGenerator \<Rightarrow> archetype" where
  "generate_structure_branch self =
    (if str_contains ''web'' (template self) \<or> str_contains ''framework'' (template self) then Web
     else if str_contains ''microservice'' (category self) then Microservice
     else if str_contains ''cli'' (category self) then Cli
     else if str_contains ''lib'' (category self) \<or> str_contains ''lib'' (template self) then Library
     else if str_contains ''mobile'' (category self) then Mobile
     else if str_contains ''game'' (category self) then Game
     else if str_contains ''data'' (category self) then Data
     else Enterprise)"

section \<open>The run over all categories\<close>

definition REPO_CATEGORIES :: "(string \<times> nat \<times> string list) list" where
  "REPO_CATEGORIES =
    [(''open_source_clones'', 100,
        [''react-clone'', ''vue-clone'', ''angular-clone'', ''django-clone'',
         ''flask-clone'', ''rails-clone'', ''spring-boot-clone'', ''express-clone'',
         ''laravel-clone'', ''symfony-clone'', ''fastapi-clone'', ''nextjs-clone'',
         ''gatsby-clone'', ''nuxt-clone'', ''nest-clone'', ''koa-clone'',
         ''gin-clone'', ''echo-clone'', ''actix-clone'', ''rocket-clone'']),
     (''enterprise_ecommerce'', 50,
        [''shopify-clone'', ''woocommerce-clone'', ''magento-clone'', ''bigcommerce-clone'']),
     (''enterprise_crm'', 50,
        [''salesforce-clone'', ''hubspot-clone'', ''zoho-clone'', ''pipedrive-clone'']),
     (''enterprise_erp'', 50,
        [''sap-clone'', ''odoo-clone'', ''netsuite-clone'', ''oracle-erp-clone'']),
     (''enterprise_cms'', 50,
        [''wordpress-clone'', ''drupal-clone'', ''joomla-clone'', ''strapi-clone'']),
     (''enterprise_analytics'', 50,
        [''google-analytics-clone'', ''mixpanel-clone'', ''amplitude-clone'', ''segment-clone'']),
     (''enterprise_bi'', 50,
        [''tableau-clone'', ''powerbi-clone'', ''looker-clone'', ''metabase-clone'']),
     (''enterprise_hr'', 50,
        [''workday-clone'', ''bamboo-clone'', ''namely-clone'', ''gusto-clone'']),
     (''enterprise_pm'', 50,
        [''jira-clone'', ''asana-clone'', ''monday-clone'', ''clickup-clone'']),
     (''microservices_small'', 100,
        [''10-service-ecommerce'', ''10-service-social'', ''10-service-booking'']),
     (''microservices_medium'', 100,
        [''50-service-banking'', ''50-service-healthcare'', ''50-service-logistics'']),
     (''microservices_large'', 50,
        [''100-service-uber-clone'', ''100-service-netflix-clone'']),
     (''libraries_web'', 100,
        [''web-framework'', ''http-client'', ''websocket-lib'', ''graphql-lib'']),
     (''libraries_testing'', 50,
        [''test-framework'', ''mock-lib'', ''assertion-lib'', ''e2e-framework'']),
     (''libraries_orm'', 50,
        [''orm-lib'', ''query-builder'', ''migration-tool'', ''schema-validator'']),
     (''cli_tools'', 100,
        [''build-tool'', ''package-manager'', ''deploy-tool'', ''monitor-tool'']),
     (''mobile_ios'', 50, [''swiftui-app'', ''uikit-app'', ''combine-app'']),
     (''mobile_android'', 50, [''kotlin-app'', ''compose-app'', ''coroutines-app'']),
     (''games'', 50, [''unity-game'', ''godot-game'', ''phaser-game'']),
     (''data_engineering'', 50,
        [''etl-pipeline'', ''data-warehouse'', ''stream-processor'', ''ml-pipeline''])]"

text \<open>
  What the body of the \<^verbatim>\<open>try\<close> block does for one repository is a parameter of the
  run: building and running the generator for an identity, a category and a template
  either returns or raises an \<^verbatim>\<open>Exception\<close> with a message. The run's state is the
  next identity, the number of repositories generated and the lines printed about each
  attempt.
\<close>

datatype outcome = Generated | Raised string

datatype event = Built nat string string | ErrorLine nat string

fun event_id :: "event \<Rightarrow> nat" where
  "event_id (Built i c t) = i"
| "event_id (ErrorLine i m) = i"

fun is_built :: "event \<Rightarrow> bool" where
  "is_built (Built i c t) = True"
| "is_built (ErrorLine i m) = False"

type_synonym run_state = "nat \<times> nat \<times> event list"

text \<open>
  The inner loop \<^verbatim>\<open>for i in range(count)\<close> over the remaining indices. The template
  lookup \<^verbatim>\<open>templates[i % len(templates)]\<close> is outside the \<^verbatim>\<open>try\<close> block, so its
  ZeroDivisionError on an empty template list ends the run. Returning without recursion
  is the \<^verbatim>\<open>break\<close>.
\<close>

fun category_loop ::
  "(nat \<Rightarrow> string \<Rightarrow> string \<Rightarrow> outcome) \<Rightarrow> string \<Rightarrow> string list \<Rightarrow> nat list \<Rightarrow> run_state
     \<Rightarrow> error + run_state" where
  "category_loop gen cat templates [] st = Inr st"
| "category_loop gen cat templates (i # is) (rid, total_repos, out) =
     (if templates = [] then Inl ZeroDivisionError
      else (let tmpl = templates ! (i mod length templates) in
            case gen rid cat tmpl of
              Generated \<Rightarrow>
                (if total_repos + 1 \<ge> 1000
                 then Inr (rid + 1, total_repos + 1, out @ [Built rid cat tmpl])
                 else category_loop gen cat templates is
                        (rid + 1, total_repos + 1, out @ [Built rid cat tmpl]))
            | Raised e \<Rightarrow>
                category_loop gen cat templates is (rid + 1, total_repos, out @ [ErrorLine rid e])))"

text \<open>The outer loop over the category table, with its own \<^verbatim>\<open>break\<close>.\<close>

fun main_loop ::
  "(nat \<Rightarrow> string \<Rightarrow> string \<Rightarrow> outcome) \<Rightarrow> (string \<times> nat \<times> string list) list \<Rightarrow> run_state
     \<Rightarrow> error + run_state" where
  "main_loop gen [] st = Inr st"
| "main_loop gen ((cat, count, templates) # rest) st =
     (case category_loop gen cat templates [0..<count] st of
        Inl e \<Rightarrow> Inl e
      | Inr (rid, total_repos, out) \<Rightarrow>
          (if total_repos \<ge> 1000 then Inr (rid, total_repos, out)
           else main_loop gen rest (rid, total_repos, out)))"

definition main :: "(nat \<Rightarrow> string \<Rightarrow> string \<Rightarrow> outcome) \<Rightarrow> error + run_state" where
  "main gen = main_loop gen REPO_CATEGORIES (5001, 0, [])"

section \<open>Code synthesis\<close>

text \<open>
  Each generator method builds the list \<^verbatim>\<open>code\<close> of lines and returns
  \<^verbatim>\<open>'\n'.join(code)\<close>. The definitions below give the lines that the fixed parts and one
  pass of each loop append. The test \<^verbatim>\<open>random.random() < 0.1\<close> is a boolean draw, decided
  by one raw draw in ten.
\<close>

definition random_below_tenth :: "rng \<Rightarrow> bool \<times> rng" where
  "random_below_tenth g = (shd g mod 10 = 0, stl g)"

definition python_header :: "string \<Rightarrow> string list" where
  \<open>python_header code_type =
    [''"""'',
      ''Module for '' @ code_type,
      ''"""'',
      [],
      ''import logging'',
      ''import typing'',
      ''from datetime import datetime'',
      [],
      ''logger = logging.getLogger(__name__)'',
      []]\<close>

definition python_class :: "nat \<Rightarrow> bool \<Rightarrow> string list" where
  \<open>python_class i bug =
    [''class Component'' @ str_of_nat i @ '':'',
      ''    """Class for component '' @ str_of_nat i @ ''"""'',
      ''    '',
      ''    def __init__(self, config: dict):'',
      ''        self.config = config'',
      ''        self.initialized = False'',
      ''    '',
      ''    def initialize(self):'',
      ''        """Initialize component"""'',
      ''        logger.info("Initializing component")'',
      ''        self.initialized = True'',
      ''    '',
      ''    def process(self, data: typing.Any) -> typing.Any:'',
      ''        """Process data"""'',
      ''        if not self.initialized:'',
      ''            raise RuntimeError("Component not initialized")'',
      ''        '',
      ''        result = self._transform(data)'',
      ''        return result'',
      ''    '',
      ''    def _transform(self, data: typing.Any) -> typing.Any:'',
      ''        """Internal transformation logic"""'',
      ''        # TODO: Implement transformation''] @
    [if bug then ''        return data + None  # BUG: TypeError''
     else ''        return data''] @
    [[]]\<close>

definition python_function :: "nat \<Rightarrow> string list" where
  \<open>python_function i =
    [''def function_'' @ str_of_nat i @ ''(param1: str, param2: int = 0) -> dict:'',
      ''    """Function '' @ str_of_nat i @ '' description"""'',
      ''    result = {'',
      ''        "param1": param1,'',
      ''        "param2": param2,'',
      ''        "timestamp": datetime.now().isoformat()'',
      ''    }'',
      ''    return result'',
      []]\<close>

definition js_header :: "bool \<Rightarrow> string list" where
  \<open>js_header is_ts =
    [if is_ts then ''import { Component } from "./types";''
     else ''const Component = require("./component");''] @
    [[]]\<close>

definition js_class :: "bool \<Rightarrow> nat \<Rightarrow> bool \<Rightarrow> string list" where
  \<open>js_class is_ts i bug =
    (if is_ts then
       [''export class Service'' @ str_of_nat i @ '' implements Component {'',
         ''  private initialized: boolean = false;'',
         ''  private config: Record<string, any>;'',
         [],
         ''  constructor(config: Record<string, any>) {'']
     else
       [''class Service'' @ str_of_nat i @ '' {'',
         ''  constructor(config) {'']) @
    [''    this.config = config;'',
      ''  }'',
      [],
      ''  async initialize() {'',
      ''    console.log("Initializing service");'',
      ''    this.initialized = true;'',
      ''  }'',
      [],
      ''  async process(data) {'',
      ''    if (!this.initialized) {'',
      ''      throw new Error("Service not initialized");'',
      ''    }'',
      ''    const result = await this.transform(data);'',
      ''    return result;'',
      ''  }'',
      [],
      ''  async transform(data) {''] @
    [if bug then ''    return data.nonexistent.property;  // BUG: Cannot read property''
     else ''    return { ...data, processed: true };''] @
    [''  }'',
      ''}'',
      []]\<close>

definition java_lines :: "string list" where
  \<open>java_lines =
    [''package com.example.app;'',
      [],
      ''import java.util.*;'',
      ''import java.time.LocalDateTime;'',
      [],
      ''public class Component {'',
      ''    private Map<String, Object> config;'',
      ''    private boolean initialized;'',
      [],
      ''    public Component(Map<String, Object> config) {'',
      ''        this.config = config;'',
      ''        this.initialized = false;'',
      ''    }'',
      [],
      ''    public void initialize() {'',
      ''        System.out.println("Initializing component");'',
      ''        this.initialized = true;'',
      ''    }'',
      [],
      ''    public Map<String, Object> process(Object data) {'',
      ''        if (!initialized) {'',
      ''            throw new RuntimeException("Component not initialized");'',
      ''        }'',
      ''        return transform(data);'',
      ''    }'',
      [],
      ''    private Map<String, Object> transform(Object data) {'',
      ''        Map<String, Object> result = new HashMap<>();'',
      ''        result.put("data", data);'',
      ''        result.put("timestamp", LocalDateTime.now());'',
      ''        return result;'',
      ''    }'',
      ''}'']\<close>

definition go_lines :: "string list" where
  \<open>go_lines =
    [''package main'',
      [],
      ''import ('',
      ''    "fmt"'',
      ''    "time"'',
      '')'',
      [],
      ''type Component struct {'',
      ''    Config      map[string]interface{}'',
      ''    Initialized bool'',
      ''}'',
      [],
      ''func NewComponent(config map[string]interface{}) *Component {'',
      ''    return &Component{'',
      ''        Config:      config,'',
      ''        Initialized: false,'',
      ''    }'',
      ''}'',
      [],
      ''func (c *Component) Initialize() {'',
      ''    fmt.Println("Initializing component")'',
      ''    c.Initialized = true'',
      ''}'',
      [],
      ''func (c *Component) Process(data interface{}) (map[string]interface{}, error) {'',
      ''    if !c.Initialized {'',
      ''        return nil, fmt.Errorf("component not initialized")'',
      ''    }'',
      ''    return c.transform(data)'',
      ''}'',
      [],
      ''func (c *Component) transform(data interface{}) (map[string]interface{}, error) {'',
      ''    result := map[string]interface{}{'',
      ''        "data":      data,'',
      ''        "timestamp": time.Now(),'',
      ''    }'',
      ''    return result, nil'',
      ''}'']\<close>

definition rust_lines :: "string list" where
  \<open>rust_lines =
    [''use std::collections::HashMap;'',
      ''use chrono::Utc;'',
      [],
      ''pub struct Component {'',
      ''    config: HashMap<String, String>,'',
      ''    initialized: bool,'',
      ''}'',
      [],
      ''impl Component {'',
      ''    pub fn new(config: HashMap<String, String>) -> Self {'',
      ''        Component {'',
      ''            config,'',
      ''            initialized: false,'',
      ''        }'',
      ''    }'',
      [],
      ''    pub fn initialize(&mut self) {'',
      ''        println!("Initializing component");'',
      ''        self.initialized = true;'',
      ''    }'',
      [],
      ''    pub fn process(&self, data: &str) -> Result<HashMap<String, String>, String> {'',
      ''        if !self.initialized {'',
      ''            return Err("Component not initialized".to_string());'',
      ''        }'',
      ''        self.transform(data)'',
      ''    }'',
      [],
      ''    fn transform(&self, data: &str) -> Result<HashMap<String, String>, String> {'',
      ''        let mut result = HashMap::new();'',
      ''        result.insert("data".to_string(), data.to_string());'',
      ''        result.insert("timestamp".to_string(), Utc::now().to_rfc3339());'',
      ''        Ok(result)'',
      ''    }'',
      ''}'']\<close>

text \<open>One pass of \<^verbatim>\<open>for i in range(num_classes)\<close>, on the pair of \<^verbatim>\<open>code\<close> and the generator.\<close>

definition python_class_step :: "nat \<Rightarrow> string list \<times> rng \<Rightarrow> string list \<times> rng" where
  "python_class_step i s =
    (let d = random_below_tenth (snd s) in (fst s @ python_class i (fst d), snd d))"

definition generate_python_code :: "int \<Rightarrow> string \<Rightarrow> rng \<Rightarrow> string \<times> rng" where
  "generate_python_code lines code_type g =
    (let code = python_header code_type;
         num_classes = max 1 (lines div 50);
         s = fold python_class_step [0..<nat num_classes] (code, g);
         num_functions = max 1 (lines div 30);
         code = fold (\<lambda>i code. code @ python_function i) [0..<nat num_functions] (fst s)
     in (join_nl code, snd s))"

definition js_class_step :: "bool \<Rightarrow> nat \<Rightarrow> string list \<times> rng \<Rightarrow> string list \<times> rng" where
  "js_class_step is_ts i s =
    (let d = random_below_tenth (snd s) in (fst s @ js_class is_ts i (fst d), snd d))"

definition generate_js_code :: "RepoGenerator \<Rightarrow> int \<Rightarrow> string \<Rightarrow> rng \<Rightarrow> string \<times> rng" where
  "generate_js_code self lines code_type g =
    (let is_ts = (language self = ''typescript'');
         code = js_header is_ts;
         num_classes = max 1 (lines div 50);
         s = fold (js_class_step is_ts) [0..<nat num_classes] (code, g)
     in (join_nl (fst s), snd s))"

definition generate_java_code :: "int \<Rightarrow> string \<Rightarrow> string" where
  "generate_java_code lines code_type = join_nl java_lines"

definition generate_go_code :: "int \<Rightarrow> string \<Rightarrow> string" where
  "generate_go_code lines code_type = join_nl go_lines"

definition generate_rust_code :: "int \<Rightarrow> string \<Rightarrow> string" where
  "generate_rust_code lines code_type = join_nl rust_lines"

definition generate_generic_code :: "int \<Rightarrow> string" where
  "generate_generic_code lines = join_nl (map (\<lambda>i. ''// Line '' @ str_of_nat i) [0..<nat lines])"

text \<open>\<^verbatim>\<open>_generate_code\<close>: the dispatch on \<^verbatim>\<open>self.language\<close>.\<close>

definition generate_code :: "RepoGenerator \<Rightarrow> int \<Rightarrow> string \<Rightarrow> rng \<Rightarrow> string \<times> rng" where
  "generate_code self lines code_type g =
    (if language self = ''python'' then generate_python_code lines code_type g
     else if language self \<in> set [''javascript'', ''typescript'']
       then generate_js_code self lines code_type g
     else if language self = ''java'' then (generate_java_code lines code_type, g)
     else if language self = ''go'' then (generate_go_code lines code_type, g)
     else if language self = ''rust'' then (generate_rust_code lines code_type, g)
     else (generate_generic_code lines, g))"

text \<open>
  Reading a synthesized text back: its lines (\<^verbatim>\<open>text.split('\n')\<close>) and the number of
  lines that start with a given keyword. A class of the Python and JavaScript skeletons
  starts a line with \<^verbatim>\<open>class\<close>, a TypeScript one with \<^verbatim>\<open>export class\<close>, the Java one
  with \<^verbatim>\<open>public class\<close>; the Go unit is the line \<^verbatim>\<open>type ... struct\<close>, the Rust one
  \<^verbatim>\<open>pub struct\<close>; a free Python function starts a line with \<^verbatim>\<open>def\<close>.
\<close>

fun text_lines :: "string \<Rightarrow> string list" where
  "text_lines [] = [[]]"
| "text_lines (c # cs) =
     (if c = CHR 0x0A then [] # text_lines cs
      else (case text_lines cs of [] \<Rightarrow> [[c]] | l # ls \<Rightarrow> (c # l) # ls))"

definition count_lines_starting :: "string \<Rightarrow> string \<Rightarrow> nat" where
  "count_lines_starting p txt = length (filter (prefix p) (text_lines txt))"

section \<open>The file system and the structure methods\<close>

text \<open>
  The file system is the set of directories and the map from the paths of regular
  files to their contents; a path is the string that \<^verbatim>\<open>pathlib\<close> prints. \<^verbatim>\<open>Path.parent\<close>
  drops the last component; the root and the current directory are their own parents.
\<close>

record filesystem =
  dirs :: "string set"
  contents :: "string \<rightharpoonup> string"

definition parent :: "string \<Rightarrow> string" where
  "parent p =
    (let d = rev (dropWhile (\<lambda>c. c \<noteq> CHR ''/'') (rev p))
     in if d = [] then ''.'' else if butlast d = [] then ''/'' else butlast d)"

text \<open>
  \<^verbatim>\<open>os.mkdir\<close>: the path must not exist and its parent must be a directory.
\<close>

definition mkdir :: "string \<Rightarrow> filesystem \<Rightarrow> error + filesystem" where
  "mkdir p fs =
    (if p \<in> dirs fs \<or> p \<in> dom (contents fs) then Inl FileExistsError
     else if parent p \<in> dom (contents fs) then Inl NotADirectoryError
     else if parent p \<notin> dirs fs then Inl FileNotFoundError
     else Inr (fs\<lparr>dirs := insert p (dirs fs)\<rparr>))"

definition path_measure :: "string \<Rightarrow> nat" where
  "path_measure p = (if p = ''.'' \<or> p = ''/'' then 0 else Suc (length p))"

text \<open>
  \<^verbatim>\<open>Path.mkdir(parents=True, exist_ok=True)\<close>, as \<^verbatim>\<open>pathlib\<close> writes it: try
  \<^verbatim>\<open>os.mkdir\<close>; when the parent is missing, make the parent in the same way and try
  again; any other error is dropped when the path is a directory by then.
\<close>

function mkdir_parents :: "string \<Rightarrow> filesystem \<Rightarrow> error + filesystem" where
  "mkdir_parents p fs =
    (case mkdir p fs of
       Inr fs' \<Rightarrow> Inr fs'
     | Inl e \<Rightarrow>
         (if e = FileNotFoundError then
            (if parent p = p then Inl e
             else (case mkdir_parents (parent p) fs of
                     Inl e' \<Rightarrow> Inl e'
                   | Inr fs' \<Rightarrow>
                       (case mkdir p fs' of
                          Inr fs'' \<Rightarrow> Inr fs''
                        | Inl e' \<Rightarrow> if p \<in> dirs fs' then Inr fs' else Inl e')))
          else if p \<in> dirs fs then Inr fs else Inl e))"
  by pat_completeness auto
termination
proof (relation "measure (\<lambda>(p, fs). path_measure p)")
  show "wf (measure (\<lambda>(p, fs). path_measure p))" by simp
next
  fix p :: string and fs :: filesystem and e :: error
  assume "parent p \<noteq> p"
  define d where "d = rev (dropWhile (\<lambda>c. c \<noteq> CHR ''/'') (rev p))"
  have dl: "length d \<le> length p"
    unfolding d_def using length_dropWhile_le [of "\<lambda>c. c \<noteq> CHR ''/''" "rev p"] by simp
  have pd: "parent p = (if d = [] then ''.'' else if butlast d = [] then ''/'' else butlast d)"
    by (simp only: parent_def d_def Let_def)
  have none: "d = [] \<Longrightarrow> p \<noteq> ''/''"
  proof
    assume "d = []" and "p = ''/''"
    then show False by (simp add: d_def)
  qed
  have dot: "d \<noteq> [] \<Longrightarrow> p \<noteq> ''.''"
  proof
    assume "d \<noteq> []" and "p = ''.''"
    then show False by (simp add: d_def)
  qed
  have root: "butlast d \<noteq> [] \<Longrightarrow> p \<noteq> ''/''"
  proof
    assume "butlast d \<noteq> []" and "p = ''/''"
    then show False by (simp add: d_def)
  qed
  have "path_measure (parent p) < path_measure p"
  proof (cases "d = []")
    case True
    then have "parent p = ''.''" using pd by simp
    moreover from this have "p \<noteq> ''.''" using \<open>parent p \<noteq> p\<close> by auto
    moreover have "p \<noteq> ''/''" using True by (rule none)
    ultimately show ?thesis by (simp add: path_measure_def)
  next
    case False
    show ?thesis
    proof (cases "butlast d = []")
      case True
      then have "parent p = ''/''" using pd False by simp
      moreover from this have "p \<noteq> ''/''" using \<open>parent p \<noteq> p\<close> by auto
      moreover have "p \<noteq> ''.''" using False by (rule dot)
      ultimately show ?thesis by (simp add: path_measure_def)
    next
      case nb: False
      then have pp: "parent p = butlast d" using pd False by simp
      have "length (butlast d) < length p" using dl False by (cases d rule: rev_cases) auto
      moreover have "p \<noteq> ''.''" using False by (rule dot)
      moreover have "p \<noteq> ''/''" using nb by (rule root)
      ultimately show ?thesis by (simp add: path_measure_def pp)
    qed
  qed
  then show "((parent p, fs), (p, fs)) \<in> measure (\<lambda>(p, fs). path_measure p)" by simp
qed

declare mkdir_parents.simps [simp del]

text \<open>
  \<^verbatim>\<open>_write_file\<close>: the parent directory of \<^verbatim>\<open>self.repo_path / path\<close> is made when it is
  missing, then the file is opened for writing, which fails on a directory, and the
  content is written. \<^verbatim>\<open>_write_code_file\<close> only calls it.
\<close>

definition write_file :: "RepoGenerator \<Rightarrow> string \<Rightarrow> string \<Rightarrow> filesystem \<Rightarrow> error + filesystem" where
  "write_file self path content fs =
    (let file_path = path_join (repo_path self) path
     in case mkdir_parents (parent file_path) fs of
          Inl e \<Rightarrow> Inl e
        | Inr fs' \<Rightarrow>
            (if file_path \<in> dirs fs' then Inl IsADirectoryError
             else Inr (fs'\<lparr>contents := (contents fs')(file_path \<mapsto> content)\<rparr>)))"

definition write_code_file :: "RepoGenerator \<Rightarrow> string \<Rightarrow> string \<Rightarrow> filesystem \<Rightarrow> error + filesystem" where
  "write_code_file self path content fs = write_file self path content fs"

text \<open>\<^verbatim>\<open>LANGUAGES[self.language]['extensions'][0]\<close>\<close>

definition language_ext :: "string \<Rightarrow> error + string" where
  "language_ext l =
    (case map_of LANGUAGES l of
       None \<Rightarrow> Inl KeyError
     | Some we \<Rightarrow> (case snd we of [] \<Rightarrow> Inl IndexError | e # _ \<Rightarrow> Inr e))"

text \<open>
  \<^verbatim>\<open>Path.mkdir(exist_ok=True)\<close> and \<^verbatim>\<open>Path.mkdir(parents=True)\<close>, the two other
  combinations of flags that the structure methods use.
\<close>

definition mkdir_exist_ok :: "string \<Rightarrow> filesystem \<Rightarrow> error + filesystem" where
  "mkdir_exist_ok p fs =
    (case mkdir p fs of
       Inr fs' \<Rightarrow> Inr fs'
     | Inl e \<Rightarrow> if e \<noteq> FileNotFoundError \<and> p \<in> dirs fs then Inr fs else Inl e)"

definition mkdir_with_parents :: "string \<Rightarrow> filesystem \<Rightarrow> error + filesystem" where
  "mkdir_with_parents p fs =
    (case mkdir p fs of
       Inr fs' \<Rightarrow> Inr fs'
     | Inl e \<Rightarrow>
         (if e = FileNotFoundError \<and> parent p \<noteq> p
          then (case mkdir_parents (parent p) fs of
                  Inl e' \<Rightarrow> Inl e'
                | Inr fs' \<Rightarrow> mkdir p fs')
          else Inl e))"

text \<open>
  A structure method is a sequence of statements, each of which takes the file system
  and the random generator to new ones or raises; the sequence stops at the first
  statement that raises.
\<close>

type_synonym world = "filesystem \<times> rng"

type_synonym step = "world \<Rightarrow> error + world"

definition bind_err :: "error + 'a \<Rightarrow> ('a \<Rightarrow> error + 'b) \<Rightarrow> error + 'b" where
  "bind_err m f = (case m of Inl e \<Rightarrow> Inl e | Inr x \<Rightarrow> f x)"

fun run_steps :: "step list \<Rightarrow> step" where
  "run_steps [] s = Inr s"
| "run_steps (f # fs) s = bind_err (f s) (run_steps fs)"

definition on_fs :: "(filesystem \<Rightarrow> error + filesystem) \<Rightarrow> step" where
  "on_fs op s = bind_err (op (fst s)) (\<lambda>fs. Inr (fs, snd s))"

text \<open>\<^verbatim>\<open>(self.repo_path / d).mkdir()\<close>\<close>

definition mkdir_step :: "RepoGenerator \<Rightarrow> string \<Rightarrow> step" where
  "mkdir_step self d = on_fs (mkdir (path_join (repo_path self) d))"

text \<open>
  \<^verbatim>\<open>self._write_code_file(path, self._generate_code(n, tag))\<close>: the code is synthesized
  first, then the file is written.
\<close>

definition write_code_step :: "RepoGenerator \<Rightarrow> string \<Rightarrow> int \<Rightarrow> string \<Rightarrow> step" where
  "write_code_step self path n tag s =
    (let code = generate_code self n tag (snd s)
     in bind_err (write_code_file self path (fst code) (fst s)) (\<lambda>fs. Inr (fs, snd code)))"

text \<open>\<^verbatim>\<open>self._write_file(path, text)\<close> for a text that needs no draw.\<close>

definition write_text_step :: "RepoGenerator \<Rightarrow> string \<Rightarrow> string \<Rightarrow> step" where
  "write_text_step self path txt = on_fs (write_file self path txt)"

text \<open>
  The loops \<^verbatim>\<open>for i in range(random.randint(a, b))\<close> whose body writes one code file
  with a budget drawn by \<^verbatim>\<open>random.randint(lo, hi)\<close>: the number of passes is drawn once,
  then each pass draws its budget.
\<close>

fun code_files ::
  "RepoGenerator \<Rightarrow> (nat \<Rightarrow> string) \<Rightarrow> int \<Rightarrow> int \<Rightarrow> string \<Rightarrow> nat list \<Rightarrow> step" where
  "code_files self path_of lo hi tag [] s = Inr s"
| "code_files self path_of lo hi tag (i # ns) s =
     (let budget = randint lo hi (snd s)
      in bind_err (write_code_step self (path_of i) (fst budget) tag (fst s, snd budget))
           (code_files self path_of lo hi tag ns))"

definition code_files_loop ::
  "RepoGenerator \<Rightarrow> (nat \<Rightarrow> string) \<Rightarrow> int \<Rightarrow> int \<Rightarrow> int \<Rightarrow> int \<Rightarrow> string \<Rightarrow> step" where
  "code_files_loop self path_of a b lo hi tag s =
    (let n = randint a b (snd s)
     in code_files self path_of lo hi tag [0..<nat (fst n)] (fst s, snd n))"

text \<open>The same for a loop whose body writes a fixed text.\<close>

fun text_files :: "RepoGenerator \<Rightarrow> (nat \<Rightarrow> string) \<Rightarrow> string \<Rightarrow> nat list \<Rightarrow> step" where
  "text_files self path_of txt [] s = Inr s"
| "text_files self path_of txt (i # ns) s =
     bind_err (write_text_step self (path_of i) txt s) (text_files self path_of txt ns)"

definition text_files_loop ::
  "RepoGenerator \<Rightarrow> (nat \<Rightarrow> string) \<Rightarrow> string \<Rightarrow> int \<Rightarrow> int \<Rightarrow> step" where
  "text_files_loop self path_of txt a b s =
    (let n = randint a b (snd s)
     in text_files self path_of txt [0..<nat (fst n)] (fst s, snd n))"

text \<open>A method that starts by looking up the extension of the language.\<close>

definition with_ext :: "RepoGenerator \<Rightarrow> (string \<Rightarrow> step) \<Rightarrow> step" where
  "with_ext self body s = bind_err (language_ext (language self)) (\<lambda>ext. body ext s)"

text \<open>
  The methods that return a fixed text (\<^verbatim>\<open>_generate_package_json\<close> to
  \<^verbatim>\<open>_generate_sql_migration\<close>) are a parameter of the structure methods: a function from
  the name of the method and the generator to the text. They read only the generator's
  fields and draw nothing.
\<close>

type_synonym static_texts = "string \<Rightarrow> RepoGenerator \<Rightarrow> string"

text \<open>\<^verbatim>\<open>_create_config_files\<close>\<close>

definition create_config_files :: "static_texts \<Rightarrow> RepoGenerator \<Rightarrow> step" where
  "create_config_files texts self =
    run_steps
      ((if language self \<in> set [''javascript'', ''typescript'']
          then [write_text_step self ''package.json'' (texts ''_generate_package_json'' self)]
        else if language self = ''python''
          then [write_text_step self ''setup.py'' (texts ''_generate_setup_py'' self),
                write_text_step self ''requirements.txt'' (texts ''_generate_requirements'' self)]
        else if language self = ''go''
          then [write_text_step self ''go.mod'' (texts ''_generate_go_mod'' self)]
        else if language self = ''rust''
          then [write_text_step self ''Cargo.toml'' (texts ''_generate_cargo_toml'' self)]
        else if language self = ''ruby''
          then [write_text_step self ''Gemfile'' (texts ''_generate_gemfile'' self)]
        else if language self = ''java''
          then [write_text_step self ''pom.xml'' (texts ''_generate_pom_xml'' self)]
        else []) @
       [on_fs (mkdir_parents (path_join (repo_path self) ''.github/workflows'')),
        write_text_step self ''.github/workflows/ci.yml'' (texts ''_generate_github_actions'' self),
        write_text_step self ''.gitignore'' (texts ''_generate_gitignore'' self),
        write_text_step self ''README.md'' (texts ''_generate_readme'' self),
        write_text_step self ''LICENSE'' (texts ''_generate_license'' self)])"

text \<open>\<^verbatim>\<open>_create_web_files\<close> and \<^verbatim>\<open>_generate_web_structure\<close>\<close>

definition create_web_files :: "static_texts \<Rightarrow> RepoGenerator \<Rightarrow> step" where
  "create_web_files texts self =
    with_ext self (\<lambda>ext. run_steps
      [write_code_step self (''src/app'' @ ext) 500 ''app_entry'',
       write_code_step self (''src/index'' @ ext) 50 ''index'',
       code_files_loop self (\<lambda>i. ''src/components/Component'' @ str_of_nat i @ ext)
         10 30 50 300 ''component'',
       code_files_loop self (\<lambda>i. ''src/pages/Page'' @ str_of_nat i @ ext) 5 15 100 500 ''page'',
       code_files_loop self (\<lambda>i. ''src/utils/util'' @ str_of_nat i @ ext) 5 15 50 200 ''util'',
       code_files_loop self (\<lambda>i. ''src/api/api'' @ str_of_nat i @ ext) 5 15 100 300 ''api'',
       code_files_loop self (\<lambda>i. ''tests/unit/test'' @ str_of_nat i @ ext) 20 60 50 200 ''test'',
       create_config_files texts self])"

definition generate_web_structure :: "static_texts \<Rightarrow> RepoGenerator \<Rightarrow> step" where
  "generate_web_structure texts self =
    run_steps
      [mkdir_step self ''src'',
       mkdir_step self ''src/components'',
       mkdir_step self ''src/pages'',
       mkdir_step self ''src/utils'',
       mkdir_step self ''src/api'',
       mkdir_step self ''src/models'',
       mkdir_step self ''src/services'',
       mkdir_step self ''tests'',
       mkdir_step self ''tests/unit'',
       mkdir_step self ''tests/integration'',
       mkdir_step self ''tests/e2e'',
       mkdir_step self ''config'',
       mkdir_step self ''public'',
       mkdir_step self ''static'',
       create_web_files texts self]"

text \<open>
  \<^verbatim>\<open>_create_service_files(path, service_name)\<close>: \<open>path\<close> is the directory of the service;
  the file names are built from its printed form, so that \<^verbatim>\<open>_write_file\<close> joins the
  repository path with a path that already starts with it.
\<close>

definition create_service_files :: "RepoGenerator \<Rightarrow> string \<Rightarrow> string \<Rightarrow> step" where
  "create_service_files self path service_name =
    with_ext self (\<lambda>ext. run_steps
      [on_fs (mkdir_exist_ok (path_join path ''src'')),
       on_fs (mkdir_exist_ok (path_join path ''tests'')),
       on_fs (mkdir_exist_ok (path_join path ''config'')),
       write_code_step self (path @ ''/src/main'' @ ext) 200 ''service_main'',
       write_code_step self (path @ ''/src/handlers'' @ ext) 300 ''handlers'',
       write_code_step self (path @ ''/src/models'' @ ext) 150 ''models'',
       write_code_step self (path @ ''/src/repository'' @ ext) 200 ''repository'',
       code_files_loop self (\<lambda>i. path @ ''/tests/test'' @ str_of_nat i @ ext) 5 15 50 150 ''test''])"

text \<open>\<^verbatim>\<open>_create_infrastructure_files\<close>\<close>

definition create_infrastructure_files :: "static_texts \<Rightarrow> RepoGenerator \<Rightarrow> step" where
  "create_infrastructure_files texts self =
    (let k8s_path = path_join (repo_path self) ''infrastructure/k8s'';
         tf_path = path_join (repo_path self) ''infrastructure/terraform''
     in run_steps
      [write_text_step self ''docker-compose.yml'' (texts ''_generate_docker_compose'' self),
       write_text_step self ''Dockerfile'' (texts ''_generate_dockerfile'' self),
       on_fs (mkdir_parents k8s_path),
       write_text_step self (k8s_path @ ''/deployment.yaml'') (texts ''_generate_k8s_deployment'' self),
       write_text_step self (k8s_path @ ''/service.yaml'') (texts ''_generate_k8s_service'' self),
       on_fs (mkdir_parents tf_path),
       write_text_step self (tf_path @ ''/main.tf'') (texts ''_generate_terraform'' self)])"

text \<open>\<^verbatim>\<open>_generate_microservice_structure\<close>, with its table of service names.\<close>

definition services :: "string list" where
  "services = [''auth'', ''user'', ''product'', ''order'', ''payment'', ''inventory'',
               ''notification'', ''analytics'', ''search'', ''recommendation'']"

definition service_name_of :: "nat \<Rightarrow> string" where
  "service_name_of i =
    services ! (i mod length services) @
    (if i \<ge> length services then ''-'' @ str_of_nat (i div length services) else [])"

fun service_loop :: "RepoGenerator \<Rightarrow> nat list \<Rightarrow> step" where
  "service_loop self [] s = Inr s"
| "service_loop self (i # ns) s =
     (let service_path = path_join (path_join (repo_path self) ''services'') (service_name_of i)
      in bind_err
           (run_steps [on_fs (mkdir_with_parents service_path),
                       create_service_files self service_path (service_name_of i)] s)
           (service_loop self ns))"

definition generate_microservice_structure :: "static_texts \<Rightarrow> RepoGenerator \<Rightarrow> step" where
  "generate_microservice_structure texts self =
    (let num_services =
           (if str_contains ''small'' (category self) then 10
            else if str_contains ''medium'' (category self) then 50 else 100 :: nat)
     in run_steps
      [mkdir_step self ''api-gateway'',
       create_service_files self (path_join (repo_path self) ''api-gateway'') ''gateway'',
       service_loop self [0..<min num_services 100],
       mkdir_step self ''shared'',
       mkdir_step self ''shared/models'',
       mkdir_step self ''shared/utils'',
       mkdir_step self ''infrastructure'',
       create_infrastructure_files texts self])"

text \<open>\<^verbatim>\<open>_create_cli_files\<close> and \<^verbatim>\<open>_generate_cli_structure\<close>\<close>

definition create_cli_files :: "RepoGenerator \<Rightarrow> step" where
  "create_cli_files self =
    with_ext self (\<lambda>ext. run_steps
      [write_code_step self (''cmd/main'' @ ext) 300 ''cli_main'',
       write_code_step self (''internal/commands'' @ ext) 500 ''commands'',
       write_code_step self (''internal/config'' @ ext) 150 ''config'',
       write_code_step self (''pkg/utils'' @ ext) 200 ''utils'',
       code_files_loop self (\<lambda>i. ''tests/test'' @ str_of_nat i @ ext) 10 30 50 150 ''test''])"

definition generate_cli_structure :: "RepoGenerator \<Rightarrow> step" where
  "generate_cli_structure self =
    run_steps
      [mkdir_step self ''cmd'',
       mkdir_step self ''internal'',
       mkdir_step self ''pkg'',
       mkdir_step self ''tests'',
       create_cli_files self]"

text \<open>\<^verbatim>\<open>_create_library_files\<close> and \<^verbatim>\<open>_generate_library_structure\<close>\<close>

definition create_library_files :: "RepoGenerator \<Rightarrow> step" where
  "create_library_files self =
    with_ext self (\<lambda>ext. run_steps
      [write_code_step self (''src/core'' @ ext) 1000 ''library_core'',
       code_files_loop self (\<lambda>i. ''src/module'' @ str_of_nat i @ ext) 10 30 100 500 ''module'',
       code_files_loop self (\<lambda>i. ''tests/test'' @ str_of_nat i @ ext) 20 60 50 200 ''test'',
       code_files_loop self (\<lambda>i. ''examples/example'' @ str_of_nat i @ ext) 5 10 50 150 ''example''])"

definition generate_library_structure :: "RepoGenerator \<Rightarrow> step" where
  "generate_library_structure self =
    run_steps
      [mkdir_step self ''src'',
       mkdir_step self ''tests'',
       mkdir_step self ''examples'',
       mkdir_step self ''docs'',
       mkdir_step self ''benchmarks'',
       create_library_files self]"

text \<open>\<^verbatim>\<open>_create_ios_files\<close>, \<^verbatim>\<open>_create_android_files\<close> and \<^verbatim>\<open>_generate_mobile_structure\<close>\<close>

definition create_ios_files :: "RepoGenerator \<Rightarrow> step" where
  "create_ios_files self =
    run_steps
      [code_files_loop self (\<lambda>i. ''Sources/View'' @ str_of_nat i @ ''.swift'') 10 30 50 200 ''swift_view'',
       code_files_loop self (\<lambda>i. ''Tests/Test'' @ str_of_nat i @ ''.swift'') 10 20 50 150 ''swift_test'']"

definition create_android_files :: "RepoGenerator \<Rightarrow> step" where
  "create_android_files self =
    (let base = ''app/src/main/java/com/example/app'';
         test_base = ''app/src/test/java/com/example/app''
     in run_steps
      [code_files_loop self (\<lambda>i. base @ ''/Activity'' @ str_of_nat i @ ''.kt'')
         10 30 50 200 ''kotlin_activity'',
       code_files_loop self (\<lambda>i. test_base @ ''/Test'' @ str_of_nat i @ ''.kt'')
         10 20 50 150 ''kotlin_test''])"

definition generate_mobile_structure :: "RepoGenerator \<Rightarrow> step" where
  "generate_mobile_structure self =
    (if str_contains ''ios'' (category self) then
       run_steps
        [mkdir_step self ''Sources'',
         mkdir_step self ''Tests'',
         mkdir_step self ''Resources'',
         create_ios_files self]
     else
       run_steps
        [mkdir_step self ''app'',
         on_fs (mkdir_with_parents (path_join (repo_path self) ''app/src/main/java'')),
         on_fs (mkdir_with_parents (path_join (repo_path self) ''app/src/test/java'')),
         on_fs (mkdir_with_parents (path_join (repo_path self) ''app/src/main/res'')),
         create_android_files self])"

text \<open>\<^verbatim>\<open>_create_game_files\<close> and \<^verbatim>\<open>_generate_game_structure\<close>\<close>

definition create_game_files :: "RepoGenerator \<Rightarrow> step" where
  "create_game_files self =
    run_steps
      [code_files_loop self (\<lambda>i. ''Assets/Scripts/Script'' @ str_of_nat i @ ''.cs'')
         20 50 50 300 ''game_script'']"

definition generate_game_structure :: "RepoGenerator \<Rightarrow> step" where
  "generate_game_structure self =
    run_steps
      [mkdir_step self ''Assets'',
       mkdir_step self ''Assets/Scripts'',
       mkdir_step self ''Assets/Scenes'',
       mkdir_step self ''Assets/Prefabs'',
       mkdir_step self ''Assets/Materials'',
       mkdir_step self ''Tests'',
       create_game_files self]"

text \<open>\<^verbatim>\<open>_create_data_files\<close> and \<^verbatim>\<open>_generate_data_structure\<close>\<close>

definition create_data_files :: "RepoGenerator \<Rightarrow> step" where
  "create_data_files self =
    with_ext self (\<lambda>ext. run_steps
      [code_files_loop self (\<lambda>i. ''pipelines/pipeline'' @ str_of_nat i @ ext) 5 15 200 600 ''pipeline'',
       code_files_loop self (\<lambda>i. ''transformations/transform'' @ str_of_nat i @ ext)
         10 20 100 300 ''transform''])"

definition generate_data_structure :: "RepoGenerator \<Rightarrow> step" where
  "generate_data_structure self =
    run_steps
      [mkdir_step self ''pipelines'',
       mkdir_step self ''transformations'',
       mkdir_step self ''models'',
       mkdir_step self ''schemas'',
       mkdir_step self ''tests'',
       mkdir_step self ''config'',
       create_data_files self]"

text \<open>
  \<^verbatim>\<open>_create_enterprise_files\<close> and \<^verbatim>\<open>_generate_enterprise_structure\<close>; the number of a
  migration is printed with \<^verbatim>\<open>{i:03d}\<close>.
\<close>

definition zfill3 :: "nat \<Rightarrow> string" where
  "zfill3 n = replicate (3 - length (str_of_nat n)) (CHR ''0'') @ str_of_nat n"

definition create_enterprise_files :: "static_texts \<Rightarrow> RepoGenerator \<Rightarrow> step" where
  "create_enterprise_files texts self =
    with_ext self (\<lambda>ext. run_steps
      [code_files_loop self (\<lambda>i. ''backend/src/module'' @ str_of_nat i @ ext) 20 50 100 500 ''backend'',
       code_files_loop self (\<lambda>i. ''frontend/src/component'' @ str_of_nat i @ ext)
         20 50 100 400 ''frontend'',
       text_files_loop self (\<lambda>i. ''database/migrations/migration'' @ zfill3 i @ ''.sql'')
         (texts ''_generate_sql_migration'' self) 10 30])"

definition generate_enterprise_structure :: "static_texts \<Rightarrow> RepoGenerator \<Rightarrow> step" where
  "generate_enterprise_structure texts self =
    run_steps
      [mkdir_step self ''backend'',
       mkdir_step self ''backend/src'',
       mkdir_step self ''backend/tests'',
       mkdir_step self ''frontend'',
       mkdir_step self ''frontend/src'',
       mkdir_step self ''frontend/tests'',
       mkdir_step self ''database'',
       mkdir_step self ''database/migrations'',
       mkdir_step self ''docs'',
       mkdir_step self ''infrastructure'',
       create_enterprise_files texts self]"

text \<open>\<^verbatim>\<open>_generate_structure\<close>: the method of the branch chosen is run.\<close>

definition generate_structure :: "static_texts \<Rightarrow> RepoGenerator \<Rightarrow> step" where
  "generate_structure texts self =
    (case generate_structure_branch self of
       Web \<Rightarrow> generate_web_structure texts self
     | Microservice \<Rightarrow> generate_microservice_structure texts self
     | Cli \<Rightarrow> generate_cli_structure self
     | Library \<Rightarrow> generate_library_structure self
     | Mobile \<Rightarrow> generate_mobile_structure self
     | Game \<Rightarrow> generate_game_structure self
     | Data \<Rightarrow> generate_data_structure self
     | Enterprise \<Rightarrow> generate_enterprise_structure texts self)"

text \<open>
  A file system is well formed when no path is both a directory and a file and every
  directory and file other than the root and the current directory lies in a directory.
\<close>

definition fs_wf :: "filesystem \<Rightarrow> bool" where
  "fs_wf fs =
    (dirs fs \<inter> dom (contents fs) = {} \<and>
     (\<forall>p\<in>dirs fs \<union> dom (contents fs). parent p = p \<or> parent p \<in> dirs fs))"

text \<open>
  The first directory that each structure method makes and the first file that it
  writes, relative to the repository (for the service mesh the file name is built from
  the printed directory of the gateway). \<open>structure_ext\<close> is the extension of the
  generator's language, where it has one.
\<close>

definition structure_ext :: "RepoGenerator \<Rightarrow> string" where
  "structure_ext self = (case language_ext (language self) of Inl e \<Rightarrow> [] | Inr ext \<Rightarrow> ext)"

definition first_directory :: "RepoGenerator \<Rightarrow> string" where
  "first_directory self =
    (case generate_structure_branch self of
       Web \<Rightarrow> ''src'' | Microservice \<Rightarrow> ''api-gateway'' | Cli \<Rightarrow> ''cmd'' | Library \<Rightarrow> ''src''
     | Mobile \<Rightarrow> (if str_contains ''ios'' (category self) then ''Sources'' else ''app'')
     | Game \<Rightarrow> ''Assets'' | Data \<Rightarrow> ''pipelines'' | Enterprise \<Rightarrow> ''backend'')"

definition first_file :: "RepoGenerator \<Rightarrow> string" where
  "first_file self =
    (case generate_structure_branch self of
       Web \<Rightarrow> ''src/app'' @ structure_ext self
     | Microservice \<Rightarrow>
         path_join (repo_path self) ''api-gateway'' @ ''/src/main'' @ structure_ext self
     | Cli \<Rightarrow> ''cmd/main'' @ structure_ext self
     | Library \<Rightarrow> ''src/core'' @ structure_ext self
     | Mobile \<Rightarrow> (if str_contains ''ios'' (category self) then ''Sources/View0.swift''
                   else ''app/src/main/java/com/example/app/Activity0.kt'')
     | Game \<Rightarrow> ''Assets/Scripts/Script0.cs''
     | Data \<Rightarrow> ''pipelines/pipeline0'' @ structure_ext self
     | Enterprise \<Rightarrow> ''backend/src/module0'' @ structure_ext self)"

text \<open>
  Three properties of a statement, each about the runs that do not raise: nothing is
  removed from the file system, a given directory exists afterwards, a given file
  exists afterwards.
\<close>

definition fs_grows :: "filesystem \<Rightarrow> filesystem \<Rightarrow> bool" where
  "fs_grows fs fs' = (dirs fs \<subseteq> dirs fs' \<and> dom (contents fs) \<subseteq> dom (contents fs'))"

definition step_grows :: "step \<Rightarrow> bool" where
  "step_grows f = (\<forall>s s'. f s = Inr s' \<longrightarrow> fs_grows (fst s) (fst s'))"

definition step_makes_dir :: "step \<Rightarrow> string \<Rightarrow> bool" where
  "step_makes_dir f d = (\<forall>s s'. f s = Inr s' \<longrightarrow> d \<in> dirs (fst s'))"

definition step_writes :: "step \<Rightarrow> string \<Rightarrow> bool" where
  "step_writes f p = (\<forall>s s'. f s = Inr s' \<longrightarrow> p \<in> dom (contents (fst s')))"

section \<open>Concrete inputs\<close>

text \<open>
  The generator that \<^verbatim>\<open>__init__\<close> builds for repository 5001 of category
  \<^verbatim>\<open>cli_tools\<close> when every raw draw is zero: Python, 1000 lines, 100 commits, one
  contributor.
\<close>

definition example_generator :: RepoGenerator where
  "example_generator =
    \<lparr>repo_id = 5001, category = ''cli_tools'', template = ''build-tool'', base_path = ''/out'',
     repo_name = ''repo-05001-build-tool'', repo_path = ''/out/repo-05001-build-tool'',
     language = ''python'', lines_of_code = 1000, num_commits = 100, num_contributors = 1,
     contributors = [(''John Smith'', ''john.smith@example.com'')], test_coverage = 20\<rparr>"

text \<open>
  The generator of the second repository of category \<^verbatim>\<open>libraries_web\<close>, whose template is
  \<^verbatim>\<open>http-client\<close>.
\<close>

definition http_client_generator :: RepoGenerator where
  "http_client_generator =
    \<lparr>repo_id = 5752, category = ''libraries_web'', template = ''http-client'', base_path = ''/out'',
     repo_name = ''repo-05752-http-client'', repo_path = ''/out/repo-05752-http-client'',
     language = ''python'', lines_of_code = 1000, num_commits = 100, num_contributors = 1,
     contributors = [(''John Smith'', ''john.smith@example.com'')], test_coverage = 20\<rparr>"

text \<open>A generator whose language is Java.\<close>

definition java_generator :: RepoGenerator where
  "java_generator = example_generator\<lparr>language := ''java''\<rparr>"

text \<open>
  The file system in which the directory of repository 5001 has just been made and
  initialised: the root, the base directory, the repository and its \<^verbatim>\<open>.git\<close> directory.
\<close>

definition fresh_fs :: filesystem where
  "fresh_fs =
    \<lparr>dirs = {''/'', ''/out'', ''/out/repo-05001-build-tool'', ''/out/repo-05001-build-tool/.git''},
     contents = [''/out/repo-05001-build-tool/.git/HEAD'' \<mapsto> ''ref: refs/heads/master'']\<rparr>"


text \<open>A walk over a repository of forty test files.\<close>

definition forty_walk :: "(string \<times> string) list" where
  "forty_walk = map (\<lambda>i. (''tests'', ''test'' @ str_of_nat i @ ''.py'')) [0..<40]"

section \<open>Facts about the commit loop\<close>


lemma randint_1_48: "1 \<le> fst (randint 1 48 g) \<and> fst (randint 1 48 g) \<le> 48"
  by (simp add: randint_def) 

lemma timedelta_hours_pos: "1 \<le> h \<Longrightarrow> 0 < timedelta_hours h"
  by (simp add: timedelta_hours_def)

lemma choice_commit_types: "\<exists>ct g1. choice commit_types g = Inr (ct, g1)"
  by (simp add: choice_def commit_types_def)

lemma choice_nonempty: "xs \<noteq> [] \<Longrightarrow> \<exists>a g1. choice xs g = Inr (a, g1) \<and> a \<in> set xs"
  by (simp add: choice_def)

lemma ceil_step:
  fixes n f :: nat
  assumes "0 < f" "0 < n"
  shows "(n + f - 1) div f = Suc ((n - f + f - 1) div f)"
proof (cases "f \<le> n")
  case True
  then have "n + f - 1 = f + (n - f + f - 1)" using assms by simp
  then show ?thesis using assms by (simp only: div_add_self1)
next
  case False
  then have a: "n - f = 0" by simp
  have "n + f - 1 = f + (n - 1)" using assms by simp
  then have "(n + f - 1) div f = (n - 1) div f + 1" using assms by (simp only: div_add_self1)
  moreover have "(n - 1) div f = 0" using False assms by simp
  ultimately show ?thesis using assms a by simp
qed



lemma commit_loop_spec:
  assumes f: "0 < fpc" and c: "contributors self \<noteq> []"
  shows "\<exists>cs. commit_loop self all fpc commits idx d g = Some (Inr (commits @ cs)) \<and>
      length cs = min (nat (num_commits self - int (length commits)))
                      ((length all - idx + fpc - 1) div fpc) \<and>
      map files cs = map (\<lambda>j. take fpc (drop (idx + j * fpc) all)) [0..<length cs] \<and>
      sorted_wrt (<) (map date cs) \<and> (\<forall>x\<in>set cs. d \<le> date x)"
proof (induction "length all - idx" arbitrary: commits idx d g rule: less_induct)
  case less
  show ?case
  proof (cases "idx < length all \<and> int (length commits) < num_commits self")
    case False
    have "commit_loop self all fpc commits idx d g = Some (Inr commits)"
      by (subst commit_loop.simps, simp only: False if_False)
    moreover have "min (nat (num_commits self - int (length commits)))
                      ((length all - idx + fpc - 1) div fpc) = 0"
      using False f by (auto simp: min_def)
    ultimately show ?thesis by simp
  next
    case True
    obtain ct g1 where ct: "choice commit_types g = Inr (ct, g1)"
      using choice_commit_types by blast
    obtain a g2 where a: "choice (contributors self) g1 = Inr (a, g2)"
      using choice_nonempty [OF c] by blast
    define fic where "fic = take fpc (drop idx all)"
    define hg where "hg = randint 1 48 g2"
    define k where "k = \<lparr>date = d, message = fst ct @ '': '' @ str_format (snd ct) (component_of (hd fic)),
                          author = a, files = fic\<rparr>"
    define d' where "d' = d + timedelta_hours (fst hg)"
    have ne: "fic \<noteq> []" using True f by (simp add: fic_def)
    have step: "commit_loop self all fpc commits idx d g =
                commit_loop self all fpc (commits @ [k]) (idx + fpc) d' (snd hg)"
      using True ct a ne
      by (subst commit_loop.simps) (simp add: Let_def fic_def hg_def k_def d'_def)
    have less': "length all - (idx + fpc) < length all - idx" using True f by linarith
    from less.hyps [OF less', of "commits @ [k]" d' "snd hg"]
    obtain cs where r: "commit_loop self all fpc (commits @ [k]) (idx + fpc) d' (snd hg)
                          = Some (Inr ((commits @ [k]) @ cs))"
      and l: "length cs = min (nat (num_commits self - int (length (commits @ [k]))))
                      ((length all - (idx + fpc) + fpc - 1) div fpc)"
      and m: "map files cs = map (\<lambda>j. take fpc (drop (idx + fpc + j * fpc) all)) [0..<length cs]"
      and s: "sorted_wrt (<) (map date cs)" and b: "\<forall>x\<in>set cs. d' \<le> date x"
      by blast
    have dd: "d < d'"
      using randint_1_48 [of g2] timedelta_hours_pos [of "fst hg"] by (simp add: d'_def hg_def)
    have 1: "commit_loop self all fpc commits idx d g = Some (Inr (commits @ (k # cs)))"
      using step r by simp
    define A where "A = nat (num_commits self - int (length commits))"
    define B where "B = (length all - (idx + fpc) + fpc - 1) div fpc"
    have "nat (num_commits self - int (length (commits @ [k]))) = A - 1"
      unfolding A_def by simp
    then have l': "length cs = min (A - 1) B" using l by (simp only: B_def)
    have Apos: "0 < A" using True by (simp add: A_def)
    have "(length all - idx + fpc - 1) div fpc = Suc B"
      using ceil_step [OF f, of "length all - idx"] True by (simp add: B_def)
    moreover have "Suc (min (A - 1) B) = min A (Suc B)" using Apos by (simp add: min_def) arith
    ultimately have 2: "length (k # cs) = min (nat (num_commits self - int (length commits)))
                      ((length all - idx + fpc - 1) div fpc)"
      using l' by (simp only: A_def list.size)
    have "map (\<lambda>j. take fpc (drop (idx + j * fpc) all)) [0..<length (k # cs)]
          = fic # map (\<lambda>j. take fpc (drop (idx + fpc + j * fpc) all)) [0..<length cs]"
      by (simp add: upt_conv_Cons map_Suc_upt [symmetric] fic_def del: upt_Suc) (simp add: ac_simps)
    then have 3: "map files (k # cs) = map (\<lambda>j. take fpc (drop (idx + j * fpc) all)) [0..<length (k # cs)]"
      using m by (simp add: k_def)
    have 4: "sorted_wrt (<) (map date (k # cs))"
      using s b dd by (auto simp: k_def)
    have 5: "\<forall>x\<in>set (k # cs). d \<le> date x"
      using b dd by (auto simp: k_def)
    from 1 2 3 4 5 show ?thesis by blast
  qed
qed


section \<open>Facts about construction\<close>

lemma sample_ok:
  "k \<le> length pool \<Longrightarrow> \<exists>xs g'. sample pool k g = Inr (xs, g') \<and> length xs = k \<and> set xs \<subseteq> set pool"
proof (induction k arbitrary: pool g)
  case 0
  show ?case by simp
next
  case (Suc k)
  define i where "i = shd g mod length pool"
  define rest where "rest = take i pool @ drop (Suc i) pool"
  have ne: "pool \<noteq> []" using Suc.prems by auto
  then have i: "i < length pool" by (simp add: i_def)
  then have "length rest = length pool - 1" by (simp add: rest_def) 
  then have "k \<le> length rest" using Suc.prems by simp
  from Suc.IH [OF this, of "stl g"] obtain xs g' where
    r: "sample rest k (stl g) = Inr (xs, g')" and l: "length xs = k" and s: "set xs \<subseteq> set rest"
    by blast
  have "set rest \<subseteq> set pool"
    unfolding rest_def using set_take_subset [of i pool] set_drop_subset [of "Suc i" pool] by auto
  with s i have "set (pool ! i # xs) \<subseteq> set pool" by auto
  moreover have "sample pool (Suc k) g = Inr (pool ! i # xs, g')"
    using ne r by (simp add: i_def rest_def Let_def)
  ultimately show ?case using l by auto
qed

lemma randint_range: "a \<le> b \<Longrightarrow> a \<le> fst (randint a b g) \<and> fst (randint a b g) \<le> b"
proof -
  assume ab: "a \<le> b"
  then have "0 < nat (b - a + 1)" by simp
  then have "shd g mod nat (b - a + 1) < nat (b - a + 1)" by (rule mod_less_divisor)
  then have "int (shd g mod nat (b - a + 1)) < b - a + 1" using ab by linarith
  then show ?thesis by (simp add: randint_def)
qed

lemma init_ok:
  "\<exists>self g'. init rid cat tmpl base g = Inr (self, g') \<and>
      100 \<le> num_commits self \<and> num_commits self \<le> 500 \<and> contributors self \<noteq> [] \<and>
      repo_id self = rid \<and> category self = cat \<and> template self = tmpl"
proof -
  define lg where "lg = select_language g"
  define loc where "loc = randint 1000 50000 (snd lg)"
  define nc where "nc = randint 100 500 (snd loc)"
  define nk where "nk = randint 1 (min 5 (int (length CONTRIBUTORS))) (snd nc)"
  have len: "length CONTRIBUTORS = 15" by (simp add: CONTRIBUTORS_def)
  have nkr: "1 \<le> fst nk \<and> fst nk \<le> 5"
    using randint_range [of 1 5 "snd nc"] by (simp add: nk_def len)
  then have "nat (fst nk) \<le> length CONTRIBUTORS" by (simp add: len nat_le_iff)
  from sample_ok [OF this, of "snd nk"] obtain cs g5 where
    s: "sample CONTRIBUTORS (nat (fst nk)) (snd nk) = Inr (cs, g5)" and l: "length cs = nat (fst nk)"
    by blast
  have ne: "cs \<noteq> []" using l nkr by auto
  have ncr: "100 \<le> fst nc \<and> fst nc \<le> 500"
    using randint_range [of 100 500 "snd loc"] by (simp add: nc_def)
  show ?thesis
    using s ne ncr
    by (simp add: init_def Let_def lg_def [symmetric] loc_def [symmetric] nc_def [symmetric]
        nk_def [symmetric])
qed


section \<open>Facts about the schedule as a whole\<close>

lemma files_per_commit_pos: "0 < files_per_commit nc n"
  by (simp add: files_per_commit_def)

lemma history_spec:
  assumes c: "contributors self \<noteq> []"
    and a: "all = collect_files walked"
    and f: "fpc = files_per_commit (num_commits self) (length all)"
  shows "\<exists>cs. create_commit_history self now walked g =
            Some (Inr (\<lparr>date = now - timedelta_days 365, message = ''Initial commit'',
                         author = hd (contributors self),
                         files = [''.gitignore'', ''README.md'']\<rparr> # cs)) \<and>
      length cs = min (nat (num_commits self - 1)) ((length all + fpc - 1) div fpc) \<and>
      map files cs = map (\<lambda>j. take fpc (drop (j * fpc) all)) [0..<length cs] \<and>
      sorted_wrt (<) (map date cs) \<and>
      (\<forall>x\<in>set cs. now - timedelta_days 365 + timedelta_days 1 \<le> date x)"
proof -
  obtain c0 rest where cc: "contributors self = c0 # rest" using c by (cases "contributors self") auto
  have fp: "0 < fpc" using f files_per_commit_pos by simp
  define boot where "boot = \<lparr>date = now - timedelta_days 365, message = ''Initial commit'',
                         author = c0, files = [''.gitignore'', ''README.md'']\<rparr>"
  have e: "create_commit_history self now walked g =
        commit_loop self all fpc [boot] 0 (now - timedelta_days 365 + timedelta_days 1) g"
    by (simp add: create_commit_history_def cc Let_def a f boot_def)
  from commit_loop_spec [OF fp c, of all "[boot]" 0 "now - timedelta_days 365 + timedelta_days 1" g]
  obtain cs where "commit_loop self all fpc [boot] 0 (now - timedelta_days 365 + timedelta_days 1) g
        = Some (Inr ([boot] @ cs))"
    and "length cs = min (nat (num_commits self - int (length [boot]))) ((length all - 0 + fpc - 1) div fpc)"
    and "map files cs = map (\<lambda>j. take fpc (drop (0 + j * fpc) all)) [0..<length cs]"
    and "sorted_wrt (<) (map date cs)"
    and "\<forall>x\<in>set cs. now - timedelta_days 365 + timedelta_days 1 \<le> date x"
    by blast
  then show ?thesis using e by (simp add: boot_def cc)
qed

lemma commit_loop_terminates:
  assumes f: "0 < fpc"
  shows "\<exists>r. commit_loop self all fpc commits idx d g = Some r"
proof (cases "contributors self = []")
  case False
  from commit_loop_spec [OF f False, of all commits idx d g] show ?thesis by blast
next
  case True
  show ?thesis
  proof (cases "idx < length all \<and> int (length commits) < num_commits self")
    case False
    have "commit_loop self all fpc commits idx d g = Some (Inr commits)"
      by (subst commit_loop.simps, simp only: False if_False)
    then show ?thesis by blast
  next
    case c: True
    obtain ct g1 where ct: "choice commit_types g = Inr (ct, g1)"
      using choice_commit_types by blast
    have "take fpc (drop idx all) \<noteq> []" using c f by simp
    then have "commit_loop self all fpc commits idx d g = Some (Inl IndexError)"
      using c ct True by (subst commit_loop.simps) (simp add: Let_def choice_def)
    then show ?thesis by blast
  qed
qed



section \<open>The claims about the commit schedule\<close>

text \<open>
  A run of the schedule on a small input: three commits requested, four entries
  walked, every raw draw zero.
\<close>

lemma commit_history_small_run:
  "create_commit_history (example_generator\<lparr>num_commits := 3\<rparr>) 1000000000000000
      [(''src'', ''a.py''), ([], ''b.py''), ([], ''.gitignore''), (''src'', ''c.py'')] (sconst 0)
   = Some (Inr
      [\<lparr>date = 1000000000000000 - 365 * 86400000000, message = ''Initial commit'',
         author = (''John Smith'', ''john.smith@example.com''), files = [''.gitignore'', ''README.md'']\<rparr>,
       \<lparr>date = 1000000000000000 - 364 * 86400000000, message = ''feat: Add src'',
         author = (''John Smith'', ''john.smith@example.com''), files = [''src/a.py'']\<rparr>,
       \<lparr>date = 1000000000000000 - 364 * 86400000000 + 3600000000, message = ''feat: Add core'',
         author = (''John Smith'', ''john.smith@example.com''), files = [''b.py'']\<rparr>])"
  by (simp add: create_commit_history_def example_generator_def collect_files_def relpath_def
      startswith_def files_per_commit_def commit_loop.simps choice_def commit_types_def
      component_of_def randint_def timedelta_days_def timedelta_hours_def Let_def)


lemma init_example:
  "init 5001 ''cli_tools'' ''build-tool'' ''/out'' (sconst 0) = Inr (example_generator, sconst 0)"
  by (simp add: init_def Let_def select_language_def LANGUAGES_def randint_def CONTRIBUTORS_def
      zfill5_def path_join_def example_generator_def digit_char_def str_of_nat.simps)



text \<open>
  Claim C2. Whenever the generator has a contributor, the schedule is produced, its
  timestamps strictly increase from each commit to the next, and the first commit is
  dated \<open>now - 365 days\<close>, strictly before every other commit.
\<close>
theorem C2_timestamps_strictly_increase:
  assumes "contributors self \<noteq> []"
  shows "\<exists>cs. create_commit_history self now walked g = Some (Inr cs) \<and> cs \<noteq> [] \<and>
           sorted_wrt (<) (map date cs) \<and>
           date (hd cs) = now - timedelta_days 365 \<and>
           (\<forall>c\<in>set (tl cs). date (hd cs) < date c)"
proof -
  from history_spec [OF assms refl refl, of now walked g]
  obtain cs where r: "create_commit_history self now walked g =
            Some (Inr (\<lparr>date = now - timedelta_days 365, message = ''Initial commit'',
                         author = hd (contributors self),
                         files = [''.gitignore'', ''README.md'']\<rparr> # cs))"
    and s: "sorted_wrt (<) (map date cs)"
    and b: "\<forall>x\<in>set cs. now - timedelta_days 365 + timedelta_days 1 \<le> date x"
    by blast
  have "0 < timedelta_days 1" by (simp add: timedelta_days_def)
  with b have "\<forall>x\<in>set cs. now - timedelta_days 365 < date x" by fastforce
  with r s show ?thesis by simp
qed

theorem C2_witness:
  "contributors example_generator \<noteq> [] \<and>
   (\<exists>cs. create_commit_history example_generator 1000000000000000 forty_walk (sconst 0) = Some (Inr cs) \<and>
          cs \<noteq> [] \<and> sorted_wrt (<) (map date cs) \<and>
          date (hd cs) = 1000000000000000 - timedelta_days 365 \<and>
          (\<forall>c\<in>set (tl cs). date (hd cs) < date c))"
  using C2_timestamps_strictly_increase [of example_generator 1000000000000000 forty_walk "sconst 0"]
  by (simp add: example_generator_def)


text \<open>
  Claim C7. For the generator that \<^verbatim>\<open>__init__\<close> builds (whatever the identity, the names
  and the draws), every walk and every clock value, the schedule has at least one commit
  and at most \<^verbatim>\<open>num_commits\<close> commits.
\<close>
theorem C7_commit_count_bounds:
  "\<exists>self g1. init rid cat tmpl base g0 = Inr (self, g1) \<and>
      (\<exists>cs. create_commit_history self now walked g = Some (Inr cs) \<and>
            1 \<le> length cs \<and> int (length cs) \<le> num_commits self)"
proof -
  obtain self g1 where i: "init rid cat tmpl base g0 = Inr (self, g1)"
    and lo: "100 \<le> num_commits self" and c: "contributors self \<noteq> []"
    using init_ok [of rid cat tmpl base g0] by blast
  from history_spec [OF c refl refl, of now walked g]
  obtain b cs where r: "create_commit_history self now walked g = Some (Inr (b # cs))"
    and l: "length cs = min (nat (num_commits self - 1))
              ((length (collect_files walked)
                 + files_per_commit (num_commits self) (length (collect_files walked)) - 1)
               div files_per_commit (num_commits self) (length (collect_files walked)))"
    by blast
  have "length cs \<le> nat (num_commits self - 1)" using l by simp
  then have "int (length (b # cs)) \<le> num_commits self" using lo by simp
  with i r show ?thesis by simp
qed

text \<open>
  Claim C9. \<^verbatim>\<open>__init__\<close> always succeeds and draws \<^verbatim>\<open>num_commits\<close> in \<open>[100, 500]\<close>, so the
  test \<^verbatim>\<open>num_commits > 10\<close> holds, the divisor \<^verbatim>\<open>num_commits - 10\<close> is positive and the
  batch size is the one of the first branch for every number of files.
\<close>
theorem C9_commit_count_range:
  "\<exists>self g1. init rid cat tmpl base g0 = Inr (self, g1) \<and>
      100 \<le> num_commits self \<and> num_commits self \<le> 500 \<and>
      10 < num_commits self \<and> 0 < num_commits self - 10 \<and>
      files_per_commit (num_commits self) n = max 1 (nat (int n div (num_commits self - 10)))"
proof -
  obtain self g1 where i: "init rid cat tmpl base g0 = Inr (self, g1)"
    and lo: "100 \<le> num_commits self" and hi: "num_commits self \<le> 500"
    using init_ok [of rid cat tmpl base g0] by blast
  have "files_per_commit (num_commits self) n = max 1 (nat (int n div (num_commits self - 10)))"
    using lo by (simp add: files_per_commit_def)
  with i lo hi show ?thesis by simp
qed




text \<open>
  Claim C10. The batch size is at least 1, the slice taken at an index below the length
  of the file list is not empty, and the loop returns from every state, as does the
  scheduling function for every generator, clock value, walk and random stream.
\<close>
theorem C10_commit_loop_terminates:
  "1 \<le> files_per_commit nc n \<and>
   (file_index < length all_files \<longrightarrow>
      take (files_per_commit nc (length all_files)) (drop file_index all_files) \<noteq> []) \<and>
   (\<exists>r. commit_loop self all_files (files_per_commit (num_commits self) (length all_files))
           commits file_index current_date g = Some r) \<and>
   (\<exists>r. create_commit_history self now walked g = Some r)"
proof (intro conjI impI)
  show "1 \<le> files_per_commit nc n" by (simp add: files_per_commit_def)
  show "\<exists>r. commit_loop self all_files (files_per_commit (num_commits self) (length all_files))
           commits file_index current_date g = Some r"
    by (rule commit_loop_terminates [OF files_per_commit_pos])
  show "\<exists>r. create_commit_history self now walked g = Some r"
  proof (cases "contributors self")
    case Nil
    then show ?thesis by (simp add: create_commit_history_def)
  next
    case (Cons c0 rest)
    then show ?thesis
      using commit_loop_terminates [OF files_per_commit_pos]
      by (simp add: create_commit_history_def Let_def)
  qed
next
  assume "file_index < length all_files"
  then show "take (files_per_commit nc (length all_files)) (drop file_index all_files) \<noteq> []"
    using files_per_commit_pos [of nc "length all_files"] by simp
qed

theorem C10_witness:
  "(0::nat) < length [''README.md'', ''setup.py''] \<and>
   1 \<le> files_per_commit 100 2 \<and>
   take (files_per_commit 100 (length [''README.md'', ''setup.py''])) (drop 0 [''README.md'', ''setup.py'']) \<noteq> [] \<and>
   (\<exists>r. commit_loop example_generator [''README.md'', ''setup.py'']
           (files_per_commit (num_commits example_generator) (length [''README.md'', ''setup.py'']))
           [] 0 0 (sconst 0) = Some r) \<and>
   (\<exists>r. create_commit_history example_generator 0 [] (sconst 0) = Some r)"
  using C10_commit_loop_terminates [of 100 2 0 "[''README.md'', ''setup.py'']" example_generator "[]" 0 "sconst 0" 0 "[]"]
  by simp








section \<open>The claim about the choice of structure\<close>

text \<open>
  Claim C4, as the code has it. The web structure is chosen exactly when the template
  name contains \<^verbatim>\<open>web\<close> or \<^verbatim>\<open>framework\<close>: the rule is tested first, so it wins over every
  other rule whatever the category is, and it does not read the category.
\<close>
theorem C4_web_rule_reads_template:
  "(generate_structure_branch self = Web) =
     (str_contains ''web'' (template self) \<or> str_contains ''framework'' (template self))"
  by (simp add: generate_structure_branch_def)

theorem C4_counterexample:
  "str_contains ''web'' (category http_client_generator) \<and>
   generate_structure_branch http_client_generator = Library"
  by (simp add: generate_structure_branch_def http_client_generator_def)

section \<open>The claim about the run over all categories\<close>

lemma category_loop_spec:
  assumes "templates \<noteq> []"
  shows "\<exists>new. category_loop gen cat templates is (rid, tot, out)
                = Inr (rid + length new, tot + length (filter is_built new), out @ new) \<and>
           map event_id new = [rid..<rid + length new] \<and>
           length new \<le> length is \<and>
           (tot + length (filter is_built new) < 1000 \<longrightarrow> length new = length is) \<and>
           (tot < 1000 \<longrightarrow> tot + length (filter is_built new) \<le> 1000) \<and>
           (\<forall>e\<in>set new. case e of
               Built i c t \<Rightarrow> gen i c t = Generated
             | ErrorLine i m \<Rightarrow> (\<exists>t. gen i cat t = Raised m))"
  using assms
proof (induction "is" arbitrary: rid tot out)
  case Nil
  show ?case by simp
next
  case (Cons i "is")
  define tmpl where "tmpl = templates ! (i mod length templates)"
  show ?case
  proof (cases "gen rid cat tmpl")
    case Generated
    show ?thesis
    proof (cases "tot + 1 \<ge> 1000")
      case True
      then have "category_loop gen cat templates (i # is) (rid, tot, out)
            = Inr (rid + 1, tot + 1, out @ [Built rid cat tmpl])"
        using Generated Cons.prems by (simp add: tmpl_def Let_def)
      then show ?thesis using True Generated
        by (intro exI [of _ "[Built rid cat tmpl]"]) simp
    next
      case False
      from Cons.IH [OF Cons.prems, of "rid + 1" "tot + 1" "out @ [Built rid cat tmpl]"]
      obtain new where
        r: "category_loop gen cat templates is (rid + 1, tot + 1, out @ [Built rid cat tmpl])
             = Inr (rid + 1 + length new, tot + 1 + length (filter is_built new),
                    (out @ [Built rid cat tmpl]) @ new)"
        and ids: "map event_id new = [rid + 1..<rid + 1 + length new]"
        and len: "length new \<le> length is"
        and full: "tot + 1 + length (filter is_built new) < 1000 \<longrightarrow> length new = length is"
        and cap: "tot + 1 < 1000 \<longrightarrow> tot + 1 + length (filter is_built new) \<le> 1000"
        and ev: "\<forall>e\<in>set new. case e of
               Built i c t \<Rightarrow> gen i c t = Generated
             | ErrorLine i m \<Rightarrow> (\<exists>t. gen i cat t = Raised m)"
        by blast
      have e: "category_loop gen cat templates (i # is) (rid, tot, out)
            = category_loop gen cat templates is (rid + 1, tot + 1, out @ [Built rid cat tmpl])"
        using Generated Cons.prems False by (simp add: tmpl_def Let_def)
      have i2: "map event_id (Built rid cat tmpl # new) = [rid..<rid + length (Built rid cat tmpl # new)]"
        using ids by (simp add: upt_conv_Cons del: upt_Suc)
      show ?thesis
        using e r i2 len full cap ev Generated False
        by (intro exI [of _ "Built rid cat tmpl # new"]) simp
    qed
  next
    case (Raised m)
    from Cons.IH [OF Cons.prems, of "rid + 1" tot "out @ [ErrorLine rid m]"]
    obtain new where
      r: "category_loop gen cat templates is (rid + 1, tot, out @ [ErrorLine rid m])
           = Inr (rid + 1 + length new, tot + length (filter is_built new),
                  (out @ [ErrorLine rid m]) @ new)"
      and ids: "map event_id new = [rid + 1..<rid + 1 + length new]"
      and len: "length new \<le> length is"
      and full: "tot + length (filter is_built new) < 1000 \<longrightarrow> length new = length is"
      and cap: "tot < 1000 \<longrightarrow> tot + length (filter is_built new) \<le> 1000"
      and ev: "\<forall>e\<in>set new. case e of
             Built i c t \<Rightarrow> gen i c t = Generated
           | ErrorLine i m \<Rightarrow> (\<exists>t. gen i cat t = Raised m)"
      by blast
    have e: "category_loop gen cat templates (i # is) (rid, tot, out)
          = category_loop gen cat templates is (rid + 1, tot, out @ [ErrorLine rid m])"
      using Raised Cons.prems by (simp add: tmpl_def Let_def)
    have i2: "map event_id (ErrorLine rid m # new) = [rid..<rid + length (ErrorLine rid m # new)]"
      using ids by (simp add: upt_conv_Cons del: upt_Suc)
    have "\<exists>t. gen rid cat t = Raised m" using Raised by blast
    then show ?thesis
      using e r i2 len full cap ev
      by (intro exI [of _ "ErrorLine rid m # new"]) simp
  qed
qed


lemma main_loop_spec:
  assumes "\<forall>row\<in>set table. snd (snd row) \<noteq> []"
  shows "\<exists>new. main_loop gen table (rid, tot, out)
                = Inr (rid + length new, tot + length (filter is_built new), out @ new) \<and>
           map event_id new = [rid..<rid + length new] \<and>
           (tot + length (filter is_built new) < 1000 \<longrightarrow>
              length new = sum_list (map (\<lambda>row. fst (snd row)) table)) \<and>
           (tot < 1000 \<longrightarrow> tot + length (filter is_built new) \<le> 1000) \<and>
           (\<forall>e\<in>set new. case e of
               Built i c t \<Rightarrow> gen i c t = Generated
             | ErrorLine i m \<Rightarrow> (\<exists>c t. gen i c t = Raised m))"
  using assms
proof (induction table arbitrary: rid tot out)
  case Nil
  show ?case by simp
next
  case (Cons row table)
  obtain cat count templates where row: "row = (cat, count, templates)" by (cases row) auto
  have ne: "templates \<noteq> []" using Cons.prems row by simp
  have rest: "\<forall>row\<in>set table. snd (snd row) \<noteq> []" using Cons.prems by simp
  from category_loop_spec [OF ne, of gen cat "[0..<count]" rid tot out]
  obtain new1 where
    r1: "category_loop gen cat templates [0..<count] (rid, tot, out)
           = Inr (rid + length new1, tot + length (filter is_built new1), out @ new1)"
    and ids1: "map event_id new1 = [rid..<rid + length new1]"
    and full1: "tot + length (filter is_built new1) < 1000 \<longrightarrow> length new1 = count"
    and cap1: "tot < 1000 \<longrightarrow> tot + length (filter is_built new1) \<le> 1000"
    and ev1: "\<forall>e\<in>set new1. case e of
               Built i c t \<Rightarrow> gen i c t = Generated
             | ErrorLine i m \<Rightarrow> (\<exists>t. gen i cat t = Raised m)"
    by auto
  have ev1': "\<forall>e\<in>set new1. case e of
               Built i c t \<Rightarrow> gen i c t = Generated
             | ErrorLine i m \<Rightarrow> (\<exists>c t. gen i c t = Raised m)"
  proof
    fix e assume "e \<in> set new1"
    with ev1 have "case e of Built i c t \<Rightarrow> gen i c t = Generated
             | ErrorLine i m \<Rightarrow> (\<exists>t. gen i cat t = Raised m)" by blast
    then show "case e of Built i c t \<Rightarrow> gen i c t = Generated
             | ErrorLine i m \<Rightarrow> (\<exists>c t. gen i c t = Raised m)"
      by (cases e) auto
  qed
  show ?case
  proof (cases "tot + length (filter is_built new1) \<ge> 1000")
    case True
    then have "main_loop gen (row # table) (rid, tot, out)
          = Inr (rid + length new1, tot + length (filter is_built new1), out @ new1)"
      using r1 by (simp add: row)
    then show ?thesis using ids1 cap1 ev1' True
      by (intro exI [of _ new1]) simp
  next
    case False
    from Cons.IH [OF rest, of "rid + length new1" "tot + length (filter is_built new1)" "out @ new1"]
    obtain new2 where
      r2: "main_loop gen table (rid + length new1, tot + length (filter is_built new1), out @ new1)
             = Inr (rid + length new1 + length new2,
                    tot + length (filter is_built new1) + length (filter is_built new2),
                    (out @ new1) @ new2)"
      and ids2: "map event_id new2 = [rid + length new1..<rid + length new1 + length new2]"
      and full2: "tot + length (filter is_built new1) + length (filter is_built new2) < 1000 \<longrightarrow>
              length new2 = sum_list (map (\<lambda>row. fst (snd row)) table)"
      and cap2: "tot + length (filter is_built new1) < 1000 \<longrightarrow>
              tot + length (filter is_built new1) + length (filter is_built new2) \<le> 1000"
      and ev2: "\<forall>e\<in>set new2. case e of
               Built i c t \<Rightarrow> gen i c t = Generated
             | ErrorLine i m \<Rightarrow> (\<exists>c t. gen i c t = Raised m)"
      by blast
    have e: "main_loop gen (row # table) (rid, tot, out)
          = Inr (rid + length (new1 @ new2), tot + length (filter is_built (new1 @ new2)),
                 out @ new1 @ new2)"
      using r1 r2 False by (simp add: row add.assoc)
    have "[rid..<rid + length new1 + length new2]
          = [rid..<rid + length new1] @ [rid + length new1..<rid + length new1 + length new2]"
      by (rule upt_add_eq_append) simp
    then have ids: "map event_id (new1 @ new2) = [rid..<rid + length (new1 @ new2)]"
      using ids1 ids2 by (simp add: add.assoc)
    have len: "length new1 = count" using full1 False by simp
    have full: "tot + length (filter is_built (new1 @ new2)) < 1000 \<longrightarrow>
              length (new1 @ new2) = sum_list (map (\<lambda>row. fst (snd row)) (row # table))"
      using full2 len by (simp add: row add.assoc)
    have cap: "tot < 1000 \<longrightarrow> tot + length (filter is_built (new1 @ new2)) \<le> 1000"
      using cap2 False by (simp add: add.assoc)
    have ev: "\<forall>e\<in>set (new1 @ new2). case e of
               Built i c t \<Rightarrow> gen i c t = Generated
             | ErrorLine i m \<Rightarrow> (\<exists>c t. gen i c t = Raised m)"
      using ev1' ev2 by auto
    from e ids full cap ev show ?thesis by blast
  qed
qed

lemma repo_categories_templates: "\<forall>row\<in>set REPO_CATEGORIES. snd (snd row) \<noteq> []"
  by (simp add: REPO_CATEGORIES_def)

lemma repo_categories_count: "sum_list (map (\<lambda>row. fst (snd row)) REPO_CATEGORIES) = 1250"
  by (simp add: REPO_CATEGORIES_def)

text \<open>
  Claim C8. When generating a repository raises, the loop prints the error line with the
  identity that failed and goes on with the remaining indices and the next identity. The
  run over the module's table never ends in an error: the identities it used are
  5001, 5002, ... without a gap or a repetition, the count of generated repositories
  is at most 1000, and while it stays below 1000 all 1250 entries of the table are
  attempted, however many of them failed.
\<close>
theorem C8_failures_do_not_halt_the_run:
  "(templates \<noteq> [] \<and> gen rid cat (templates ! (i mod length templates)) = Raised m \<longrightarrow>
      category_loop gen cat templates (i # is) (rid, tot, out)
        = category_loop gen cat templates is (rid + 1, tot, out @ [ErrorLine rid m])) \<and>
   (\<exists>rid' tot' out'. main gen = Inr (rid', tot', out') \<and>
      map event_id out' = [5001..<5001 + length out'] \<and>
      distinct (map event_id out') \<and>
      rid' = 5001 + length out' \<and>
      tot' = length (filter is_built out') \<and> tot' \<le> 1000 \<and>
      (tot' < 1000 \<longrightarrow> length out' = 1250) \<and>
      (\<forall>e\<in>set out'. case e of
          Built i c t \<Rightarrow> gen i c t = Generated
        | ErrorLine i m \<Rightarrow> (\<exists>c t. gen i c t = Raised m)))"
proof (intro conjI impI)
  assume "templates \<noteq> [] \<and> gen rid cat (templates ! (i mod length templates)) = Raised m"
  then show "category_loop gen cat templates (i # is) (rid, tot, out)
        = category_loop gen cat templates is (rid + 1, tot, out @ [ErrorLine rid m])"
    by (simp add: Let_def)
next
  from main_loop_spec [OF repo_categories_templates, of gen 5001 0 "[]"]
  obtain new where
    r: "main gen = Inr (5001 + length new, length (filter is_built new), new)"
    and ids: "map event_id new = [5001..<5001 + length new]"
    and full: "length (filter is_built new) < 1000 \<longrightarrow> length new = 1250"
    and cap: "length (filter is_built new) \<le> 1000"
    and ev: "\<forall>e\<in>set new. case e of
               Built i c t \<Rightarrow> gen i c t = Generated
             | ErrorLine i m \<Rightarrow> (\<exists>c t. gen i c t = Raised m)"
    by (auto simp add: main_def repo_categories_count)
  have "distinct (map event_id new)" by (simp only: ids distinct_upt)
  with r ids full cap ev
  show "\<exists>rid' tot' out'. main gen = Inr (rid', tot', out') \<and>
      map event_id out' = [5001..<5001 + length out'] \<and>
      distinct (map event_id out') \<and>
      rid' = 5001 + length out' \<and>
      tot' = length (filter is_built out') \<and> tot' \<le> 1000 \<and>
      (tot' < 1000 \<longrightarrow> length out' = 1250) \<and>
      (\<forall>e\<in>set out'. case e of
          Built i c t \<Rightarrow> gen i c t = Generated
        | ErrorLine i m \<Rightarrow> (\<exists>c t. gen i c t = Raised m))"
    by blast
qed

theorem C8_witness:
  "([''build-tool'', ''package-manager''] \<noteq> [] \<and>
    (\<lambda>i c t. Raised ''No space left on device'') (5001::nat) ''cli_tools''
       ([''build-tool'', ''package-manager''] ! (0 mod length [''build-tool'', ''package-manager'']))
      = Raised ''No space left on device'') \<and>
   category_loop (\<lambda>i c t. Raised ''No space left on device'') ''cli_tools''
       [''build-tool'', ''package-manager''] [0, 1] (5001, 0, [])
     = category_loop (\<lambda>i c t. Raised ''No space left on device'') ''cli_tools''
       [''build-tool'', ''package-manager''] [1] (5002, 0, [ErrorLine 5001 ''No space left on device'']) \<and>
   (\<exists>out'. main (\<lambda>i c t. Raised ''No space left on device'') = Inr (6251, 0, out') \<and>
        length out' = 1250 \<and> map event_id out' = [5001..<6251])"
proof -
  let ?gen = "\<lambda>(i::nat) (c::string) (t::string). Raised ''No space left on device''"
  from C8_failures_do_not_halt_the_run
         [of "[''build-tool'', ''package-manager'']" ?gen 5001 "''cli_tools''" 0
             "''No space left on device''" "[1]" 0 "[]"]
  have step: "category_loop ?gen ''cli_tools'' [''build-tool'', ''package-manager''] [0, 1] (5001, 0, [])
     = category_loop ?gen ''cli_tools'' [''build-tool'', ''package-manager''] [1]
         (5002, 0, [ErrorLine 5001 ''No space left on device''])"
    and "\<exists>rid' tot' out'. main ?gen = Inr (rid', tot', out') \<and>
      map event_id out' = [5001..<5001 + length out'] \<and>
      distinct (map event_id out') \<and>
      rid' = 5001 + length out' \<and>
      tot' = length (filter is_built out') \<and> tot' \<le> 1000 \<and>
      (tot' < 1000 \<longrightarrow> length out' = 1250) \<and>
      (\<forall>e\<in>set out'. case e of
          Built i c t \<Rightarrow> ?gen i c t = Generated
        | ErrorLine i m \<Rightarrow> (\<exists>c t. ?gen i c t = Raised m))"
    by simp_all
  then obtain rid' tot' out' where r: "main ?gen = Inr (rid', tot', out')"
    and ids: "map event_id out' = [5001..<5001 + length out']"
    and rid: "rid' = 5001 + length out'"
    and tot: "tot' = length (filter is_built out')"
    and full: "tot' < 1000 \<longrightarrow> length out' = 1250"
    and ev: "\<forall>e\<in>set out'. case e of
          Built i c t \<Rightarrow> ?gen i c t = Generated
        | ErrorLine i m \<Rightarrow> (\<exists>c t. ?gen i c t = Raised m)"
    by blast
  have "\<forall>e\<in>set out'. \<not> is_built e"
  proof
    fix e assume "e \<in> set out'"
    with ev have "case e of Built i c t \<Rightarrow> ?gen i c t = Generated
        | ErrorLine i m \<Rightarrow> (\<exists>c t. ?gen i c t = Raised m)" by blast
    then show "\<not> is_built e" by (cases e) auto
  qed
  then have "filter is_built out' = []" by (simp add: filter_empty_conv)
  then have t0: "tot' = 0" using tot by simp
  then have "length out' = 1250" using full by simp
  with r ids rid t0 step show ?thesis by simp
qed


section \<open>The claim about code synthesis\<close>

lemma digit_char_in: "digit_char d \<in> set ''0123456789''"
  unfolding digit_char_def by (rule nth_mem) simp

lemma digit_char_not_nl: "digit_char d \<noteq> CHR 0x0A"
  using digit_char_in [of d] by auto

lemma str_of_nat_no_newline: "CHR 0x0A \<notin> set (str_of_nat n)"
proof (induction n rule: str_of_nat.induct)
  case (1 n)
  show ?case
  proof (cases "n < 10")
    case True
    then show ?thesis using digit_char_not_nl [of n] by (subst str_of_nat.simps) auto
  next
    case False
    with 1 show ?thesis using digit_char_not_nl [of "n mod 10"] by (subst str_of_nat.simps) auto
  qed
qed

lemma text_lines_single: "CHR 0x0A \<notin> set l \<Longrightarrow> text_lines l = [l]"
  by (induction l) auto

lemma text_lines_append: "CHR 0x0A \<notin> set l \<Longrightarrow> text_lines (l @ CHR 0x0A # rest) = l # text_lines rest"
  by (induction l) auto

lemma text_lines_join:
  "ls \<noteq> [] \<Longrightarrow> \<forall>l\<in>set ls. CHR 0x0A \<notin> set l \<Longrightarrow> text_lines (join_nl ls) = ls"
proof (induction ls rule: join_nl.induct)
  case 1
  then show ?case by simp
next
  case (2 l)
  then show ?case by (simp add: text_lines_single)
next
  case (3 l v va)
  then show ?case by (simp add: text_lines_append)
qed


lemma python_class_count: "length (filter (prefix ''class '') (python_class i bug)) = 1"
  by (simp add: python_class_def)

lemma python_class_def_count: "length (filter (prefix ''def '') (python_class i bug)) = 0"
  by (simp add: python_class_def)

lemma python_class_no_newline: "\<forall>l\<in>set (python_class i bug). CHR 0x0A \<notin> set l"
  by (simp add: python_class_def str_of_nat_no_newline)


lemma python_function_count: "length (filter (prefix ''def '') (python_function i)) = 1"
  by (simp add: python_function_def)

lemma python_function_class_count: "length (filter (prefix ''class '') (python_function i)) = 0"
  by (simp add: python_function_def)

lemma python_function_no_newline: "\<forall>l\<in>set (python_function i). CHR 0x0A \<notin> set l"
  by (simp add: python_function_def str_of_nat_no_newline)

lemma python_header_count:
  "length (filter (prefix ''class '') (python_header t)) = 0"
  "length (filter (prefix ''def '') (python_header t)) = 0"
  by (simp_all add: python_header_def)

lemma python_header_no_newline:
  "CHR 0x0A \<notin> set t \<Longrightarrow> \<forall>l\<in>set (python_header t). CHR 0x0A \<notin> set l"
  by (simp add: python_header_def)

lemma js_class_count:
  "length (filter (prefix ''class '') (js_class False i bug)) = 1"
  "length (filter (prefix ''export class '') (js_class True i bug)) = 1"
  by (simp_all add: js_class_def)

lemma js_header_count:
  "length (filter (prefix ''class '') (js_header False)) = 0"
  "length (filter (prefix ''export class '') (js_header True)) = 0"
  by (simp_all add: js_header_def)

lemma js_class_no_newline: "\<forall>l\<in>set (js_class is_ts i bug). CHR 0x0A \<notin> set l"
  by (simp add: js_class_def str_of_nat_no_newline)

lemma js_header_no_newline: "\<forall>l\<in>set (js_header is_ts). CHR 0x0A \<notin> set l"
  by (simp add: js_header_def)

lemma fold_blocks_count:
  assumes st: "\<And>i s. proj (step i s) = proj s @ blk i s"
    and k: "\<And>i s. length (filter Q (blk i s)) = k"
  shows "length (filter Q (proj (fold step ns s))) = length (filter Q (proj s)) + length ns * k"
  by (induction ns arbitrary: s) (simp_all add: st k)

lemma fold_blocks_all:
  assumes st: "\<And>i s. proj (step i s) = proj s @ blk i s"
    and n: "\<And>i s. \<forall>l\<in>set (blk i s). N l"
  shows "\<forall>l\<in>set (proj s). N l \<Longrightarrow> \<forall>l\<in>set (proj (fold step ns s)). N l"
proof (induction ns arbitrary: s)
  case Nil
  then show ?case by simp
next
  case (Cons i ns)
  have "\<forall>l\<in>set (proj (step i s)). N l" using Cons.prems n [of i s] by (auto simp: st)
  from Cons.IH [OF this] show ?case by simp
qed

lemma fold_blocks_nonempty:
  assumes st: "\<And>i s. proj (step i s) = proj s @ blk i s"
  shows "proj s \<noteq> [] \<Longrightarrow> proj (fold step ns s) \<noteq> []"
  by (induction ns arbitrary: s) (simp_all add: st)

lemma python_class_step_fst:
  "fst (python_class_step i s) = fst s @ python_class i (fst (random_below_tenth (snd s)))"
  by (simp add: python_class_step_def Let_def)

lemma js_class_step_fst:
  "fst (js_class_step is_ts i s) = fst s @ js_class is_ts i (fst (random_below_tenth (snd s)))"
  by (simp add: js_class_step_def Let_def)

lemma python_counts:
  assumes t: "CHR 0x0A \<notin> set code_type"
  shows "count_lines_starting ''class '' (fst (generate_python_code lines code_type g))
           = nat (max 1 (lines div 50))"
    and "count_lines_starting ''def '' (fst (generate_python_code lines code_type g))
           = nat (max 1 (lines div 30))"
proof -
  define nc where "nc = nat (max 1 (lines div 50))"
  define nf where "nf = nat (max 1 (lines div 30))"
  define s where "s = fold python_class_step [0..<nc] (python_header code_type, g)"
  define code where "code = fold (\<lambda>i code. code @ python_function i) [0..<nf] (fst s)"
  have r: "fst (generate_python_code lines code_type g) = join_nl code"
    by (simp add: generate_python_code_def Let_def code_def s_def nc_def nf_def)
  have s_nl: "\<forall>l\<in>set (fst s). CHR 0x0A \<notin> set l"
    unfolding s_def
    by (rule fold_blocks_all [where proj = fst, OF python_class_step_fst])
       (simp_all add: python_class_no_newline python_header_no_newline [OF t])
  have code_nl: "\<forall>l\<in>set code. CHR 0x0A \<notin> set l"
    using fold_blocks_all [where proj = "\<lambda>x. x" and step = "\<lambda>i code. code @ python_function i"
        and blk = "\<lambda>i s. python_function i" and N = "\<lambda>l. CHR 0x0A \<notin> set l" and s = "fst s" and ns = "[0..<nf]"]
      s_nl python_function_no_newline
    by (simp add: code_def)
  have s_ne: "fst s \<noteq> []"
    unfolding s_def
    by (rule fold_blocks_nonempty [where proj = fst, OF python_class_step_fst])
       (simp add: python_header_def)
  have code_ne: "code \<noteq> []"
    using fold_blocks_nonempty [where proj = "\<lambda>x. x" and step = "\<lambda>i code. code @ python_function i"
        and blk = "\<lambda>i s. python_function i" and s = "fst s" and ns = "[0..<nf]"] s_ne
    by (simp add: code_def)
  have tl: "text_lines (join_nl code) = code" by (rule text_lines_join [OF code_ne code_nl])
  have sc: "length (filter (prefix ''class '') (fst s)) = nc"
    unfolding s_def
    using fold_blocks_count [where proj = fst and Q = "prefix ''class ''" and k = 1
        and ns = "[0..<nc]" and s = "(python_header code_type, g)",
        OF python_class_step_fst python_class_count]
    by (simp add: python_header_count)
  have sd: "length (filter (prefix ''def '') (fst s)) = 0"
    unfolding s_def
    using fold_blocks_count [where proj = fst and Q = "prefix ''def ''" and k = 0
        and ns = "[0..<nc]" and s = "(python_header code_type, g)",
        OF python_class_step_fst python_class_def_count]
    by (simp add: python_header_count)
  have cc: "length (filter (prefix ''class '') code) = nc"
    using fold_blocks_count [where proj = "\<lambda>x. x" and step = "\<lambda>i code. code @ python_function i"
        and blk = "\<lambda>i s. python_function i" and Q = "prefix ''class ''" and k = 0
        and s = "fst s" and ns = "[0..<nf]"] python_function_class_count sc
    by (simp add: code_def)
  have cd: "length (filter (prefix ''def '') code) = nf"
    using fold_blocks_count [where proj = "\<lambda>x. x" and step = "\<lambda>i code. code @ python_function i"
        and blk = "\<lambda>i s. python_function i" and Q = "prefix ''def ''" and k = 1
        and s = "fst s" and ns = "[0..<nf]"] python_function_count sd
    by (simp add: code_def)
  show "count_lines_starting ''class '' (fst (generate_python_code lines code_type g))
           = nat (max 1 (lines div 50))"
    by (simp only: count_lines_starting_def r tl cc nc_def)
  show "count_lines_starting ''def '' (fst (generate_python_code lines code_type g))
           = nat (max 1 (lines div 30))"
    by (simp only: count_lines_starting_def r tl cd nf_def)
qed


lemma js_counts:
  "count_lines_starting (if language self = ''typescript'' then ''export class '' else ''class '')
      (fst (generate_js_code self lines code_type g)) = nat (max 1 (lines div 50))"
proof -
  define is_ts where "is_ts = (language self = ''typescript'')"
  define nc where "nc = nat (max 1 (lines div 50))"
  define s where "s = fold (js_class_step is_ts) [0..<nc] (js_header is_ts, g)"
  define p where "p = (if is_ts then ''export class '' else ''class '')"
  have r: "fst (generate_js_code self lines code_type g) = join_nl (fst s)"
    by (simp add: generate_js_code_def Let_def s_def nc_def is_ts_def)
  have nl: "\<forall>l\<in>set (fst s). CHR 0x0A \<notin> set l"
    unfolding s_def
    by (rule fold_blocks_all [where proj = fst, OF js_class_step_fst])
       (simp_all add: js_class_no_newline js_header_no_newline)
  have ne: "fst s \<noteq> []"
    unfolding s_def
    by (rule fold_blocks_nonempty [where proj = fst, OF js_class_step_fst])
       (simp add: js_header_def)
  have tl: "text_lines (join_nl (fst s)) = fst s" by (rule text_lines_join [OF ne nl])
  have k: "\<And>i s. length (filter (prefix p) (js_class is_ts i (fst (random_below_tenth (snd s))))) = 1"
    by (cases is_ts) (simp_all add: p_def js_class_count)
  have h: "length (filter (prefix p) (js_header is_ts)) = 0"
    by (cases is_ts) (simp_all add: p_def js_header_count)
  have c: "length (filter (prefix p) (fst s)) = nc"
    unfolding s_def
    using fold_blocks_count [where proj = fst and Q = "prefix p" and k = 1
        and ns = "[0..<nc]" and s = "(js_header is_ts, g)"
        and step = "js_class_step is_ts", OF js_class_step_fst k] h
    by simp
  show ?thesis
    by (simp only: count_lines_starting_def r tl c nc_def p_def [unfolded is_ts_def, symmetric])
qed

lemma java_count: "count_lines_starting ''public class '' (generate_java_code lines code_type) = 1"
proof -
  have "text_lines (join_nl java_lines) = java_lines"
    by (rule text_lines_join) (simp_all add: java_lines_def)
  moreover have "length (filter (prefix ''public class '') java_lines) = 1"
    by (simp add: java_lines_def)
  ultimately show ?thesis
    by (simp only: count_lines_starting_def generate_java_code_def)
qed

lemma go_count: "count_lines_starting ''type '' (generate_go_code lines code_type) = 1"
proof -
  have "text_lines (join_nl go_lines) = go_lines"
    by (rule text_lines_join) (simp_all add: go_lines_def)
  moreover have "length (filter (prefix ''type '') go_lines) = 1"
    by (simp add: go_lines_def)
  ultimately show ?thesis
    by (simp only: count_lines_starting_def generate_go_code_def)
qed

lemma rust_count: "count_lines_starting ''pub struct '' (generate_rust_code lines code_type) = 1"
proof -
  have "text_lines (join_nl rust_lines) = rust_lines"
    by (rule text_lines_join) (simp_all add: rust_lines_def)
  moreover have "length (filter (prefix ''pub struct '') rust_lines) = 1"
    by (simp add: rust_lines_def)
  ultimately show ?thesis
    by (simp only: count_lines_starting_def generate_rust_code_def)
qed

text \<open>
  Claim C3, as the code has it. A Python text has \<open>max 1 (lines div 50)\<close> lines that open a
  class and \<open>max 1 (lines div 30)\<close> lines that open a free function (the role tag being
  free of line breaks, as every tag of the generator is); a JavaScript or TypeScript
  text has \<open>max 1 (lines div 50)\<close> lines that open a class; a Java, Go or Rust text has
  exactly one unit whatever the number of lines requested.
\<close>
theorem C3_unit_counts_by_language:
  "(language self = ''python'' \<and> CHR 0x0A \<notin> set code_type \<longrightarrow>
      count_lines_starting ''class '' (fst (generate_code self lines code_type g))
        = nat (max 1 (lines div 50)) \<and>
      count_lines_starting ''def '' (fst (generate_code self lines code_type g))
        = nat (max 1 (lines div 30))) \<and>
   (language self = ''javascript'' \<longrightarrow>
      count_lines_starting ''class '' (fst (generate_code self lines code_type g))
        = nat (max 1 (lines div 50))) \<and>
   (language self = ''typescript'' \<longrightarrow>
      count_lines_starting ''export class '' (fst (generate_code self lines code_type g))
        = nat (max 1 (lines div 50))) \<and>
   (language self = ''java'' \<longrightarrow>
      count_lines_starting ''public class '' (fst (generate_code self lines code_type g)) = 1) \<and>
   (language self = ''go'' \<longrightarrow>
      count_lines_starting ''type '' (fst (generate_code self lines code_type g)) = 1) \<and>
   (language self = ''rust'' \<longrightarrow>
      count_lines_starting ''pub struct '' (fst (generate_code self lines code_type g)) = 1)"
proof (intro conjI impI)
  assume "language self = ''python'' \<and> CHR 0x0A \<notin> set code_type"
  then show "count_lines_starting ''class '' (fst (generate_code self lines code_type g))
        = nat (max 1 (lines div 50))"
    and "count_lines_starting ''def '' (fst (generate_code self lines code_type g))
        = nat (max 1 (lines div 30))"
    by (simp_all add: generate_code_def python_counts)
next
  assume l: "language self = ''javascript''"
  show "count_lines_starting ''class '' (fst (generate_code self lines code_type g))
        = nat (max 1 (lines div 50))"
    using js_counts [of self lines code_type g] by (simp add: generate_code_def l)
next
  assume l: "language self = ''typescript''"
  show "count_lines_starting ''export class '' (fst (generate_code self lines code_type g))
        = nat (max 1 (lines div 50))"
    using js_counts [of self lines code_type g] by (simp add: generate_code_def l)
next
  assume l: "language self = ''java''"
  show "count_lines_starting ''public class '' (fst (generate_code self lines code_type g)) = 1"
    by (simp add: generate_code_def l java_count)
next
  assume l: "language self = ''go''"
  show "count_lines_starting ''type '' (fst (generate_code self lines code_type g)) = 1"
    by (simp add: generate_code_def l go_count)
next
  assume l: "language self = ''rust''"
  show "count_lines_starting ''pub struct '' (fst (generate_code self lines code_type g)) = 1"
    by (simp add: generate_code_def l rust_count)
qed

theorem C3_witness:
  "(language example_generator = ''python'' \<and> CHR 0x0A \<notin> set ''app_entry'') \<and>
   count_lines_starting ''class '' (fst (generate_code example_generator 500 ''app_entry'' (sconst 0))) = 10 \<and>
   count_lines_starting ''def '' (fst (generate_code example_generator 500 ''app_entry'' (sconst 0))) = 16"
  using C3_unit_counts_by_language [of example_generator "''app_entry''" 500 "sconst 0"]
  by (simp add: example_generator_def)

theorem C3_counterexample:
  "language java_generator = ''java'' \<and>
   count_lines_starting ''public class '' (fst (generate_code java_generator 500 ''app_entry'' (sconst 0))) = 1 \<and>
   nat (max 1 (500 div 50)) = 10 \<and>
   fst (generate_code java_generator 500 ''app_entry'' (sconst 0))
     = fst (generate_code java_generator 50 ''app_entry'' (sconst 0))"
proof -
  have "generate_java_code 500 ''app_entry'' = generate_java_code 50 ''app_entry''"
    by (simp add: generate_java_code_def)
  then show ?thesis
    by (simp add: java_generator_def example_generator_def generate_code_def java_count)
qed



section \<open>Facts about the file system and the structure methods\<close>

lemma fs_grows_refl: "fs_grows fs fs"
  by (simp add: fs_grows_def)

lemma fs_grows_trans: "fs_grows a b \<Longrightarrow> fs_grows b c \<Longrightarrow> fs_grows a c"
  unfolding fs_grows_def by (meson subset_trans)

lemma mkdir_result: "mkdir p fs = Inr fs' \<Longrightarrow> fs' = fs\<lparr>dirs := insert p (dirs fs)\<rparr>"
  by (auto simp: mkdir_def split: if_splits)

lemma mkdir_grows: "mkdir p fs = Inr fs' \<Longrightarrow> fs_grows fs fs' \<and> p \<in> dirs fs'"
  by (auto dest!: mkdir_result simp: fs_grows_def)

lemma mkdir_parents_grows: "mkdir_parents p fs = Inr fs' \<Longrightarrow> fs_grows fs fs' \<and> p \<in> dirs fs'"
proof (induction p fs arbitrary: fs' rule: mkdir_parents.induct)
  case (1 p fs)
  show ?case
  proof (cases "mkdir p fs")
    case (Inr fs1)
    then have "fs' = fs1" using "1.prems" by (subst (asm) mkdir_parents.simps) simp
    then show ?thesis using mkdir_grows [OF Inr] by simp
  next
    case (Inl e)
    show ?thesis
    proof (cases "e = FileNotFoundError")
      case False
      then have "p \<in> dirs fs \<and> fs' = fs"
        using "1.prems" Inl by (subst (asm) mkdir_parents.simps) (auto split: if_splits)
      then show ?thesis by (simp add: fs_grows_refl)
    next
      case True
      then have np: "parent p \<noteq> p"
        using "1.prems" Inl by (subst (asm) mkdir_parents.simps) (auto split: if_splits)
      then obtain fs1 where r1: "mkdir_parents (parent p) fs = Inr fs1"
        using "1.prems" Inl True
        by (subst (asm) mkdir_parents.simps) (auto split: if_splits sum.splits)
      from "1.IH" [OF Inl True np r1] have g1: "fs_grows fs fs1" by simp
      have "(\<exists>fs2. mkdir p fs1 = Inr fs2 \<and> fs' = fs2) \<or> (p \<in> dirs fs1 \<and> fs' = fs1)"
        using "1.prems" Inl True np r1
        by (subst (asm) mkdir_parents.simps) (auto split: if_splits sum.splits)
      then show ?thesis
      proof
        assume "\<exists>fs2. mkdir p fs1 = Inr fs2 \<and> fs' = fs2"
        then show ?thesis using mkdir_grows [of p fs1 fs'] g1 fs_grows_trans by blast
      next
        assume "p \<in> dirs fs1 \<and> fs' = fs1"
        then show ?thesis using g1 by simp
      qed
    qed
  qed
qed

lemma mkdir_exist_ok_grows: "mkdir_exist_ok p fs = Inr fs' \<Longrightarrow> fs_grows fs fs' \<and> p \<in> dirs fs'"
  by (auto simp: mkdir_exist_ok_def fs_grows_refl dest: mkdir_grows split: sum.splits if_splits)

lemma mkdir_with_parents_grows:
  "mkdir_with_parents p fs = Inr fs' \<Longrightarrow> fs_grows fs fs' \<and> p \<in> dirs fs'"
proof -
  assume a: "mkdir_with_parents p fs = Inr fs'"
  show ?thesis
  proof (cases "mkdir p fs")
    case (Inr fs1)
    then show ?thesis using a mkdir_grows [OF Inr] by (simp add: mkdir_with_parents_def)
  next
    case (Inl e)
    then obtain fs1 where "mkdir_parents (parent p) fs = Inr fs1" and "mkdir p fs1 = Inr fs'"
      using a by (auto simp: mkdir_with_parents_def split: if_splits sum.splits)
    then show ?thesis
      using mkdir_parents_grows [of "parent p" fs fs1] mkdir_grows [of p fs1 fs'] fs_grows_trans
      by blast
  qed
qed

lemma write_file_grows:
  "write_file self path content fs = Inr fs' \<Longrightarrow>
     fs_grows fs fs' \<and> path_join (repo_path self) path \<in> dom (contents fs')"
proof -
  assume a: "write_file self path content fs = Inr fs'"
  then obtain fs1 where m: "mkdir_parents (parent (path_join (repo_path self) path)) fs = Inr fs1"
    and r: "fs' = fs1\<lparr>contents := (contents fs1)(path_join (repo_path self) path \<mapsto> content)\<rparr>"
    by (auto simp: write_file_def Let_def split: sum.splits if_splits)
  have "fs_grows fs1 fs'" using r by (auto simp: fs_grows_def)
  then show ?thesis using mkdir_parents_grows [OF m] r fs_grows_trans by auto
qed


lemma step_growsI: "(\<And>s s'. f s = Inr s' \<Longrightarrow> fs_grows (fst s) (fst s')) \<Longrightarrow> step_grows f"
  unfolding step_grows_def by blast

lemma step_growsD: "step_grows f \<Longrightarrow> f s = Inr s' \<Longrightarrow> fs_grows (fst s) (fst s')"
  unfolding step_grows_def by blast

lemma step_makes_dirI: "(\<And>s s'. f s = Inr s' \<Longrightarrow> d \<in> dirs (fst s')) \<Longrightarrow> step_makes_dir f d"
  unfolding step_makes_dir_def by blast

lemma step_makes_dirD: "step_makes_dir f d \<Longrightarrow> f s = Inr s' \<Longrightarrow> d \<in> dirs (fst s')"
  unfolding step_makes_dir_def by blast

lemma step_writesI: "(\<And>s s'. f s = Inr s' \<Longrightarrow> p \<in> dom (contents (fst s'))) \<Longrightarrow> step_writes f p"
  unfolding step_writes_def by blast

lemma step_writesD: "step_writes f p \<Longrightarrow> f s = Inr s' \<Longrightarrow> p \<in> dom (contents (fst s'))"
  unfolding step_writes_def by blast

lemma grows_dir: "fs_grows fs fs' \<Longrightarrow> d \<in> dirs fs \<Longrightarrow> d \<in> dirs fs'"
  unfolding fs_grows_def by blast

lemma grows_file: "fs_grows fs fs' \<Longrightarrow> p \<in> dom (contents fs) \<Longrightarrow> p \<in> dom (contents fs')"
  unfolding fs_grows_def by blast

lemma bind_err_Inr: "bind_err m f = Inr y \<Longrightarrow> \<exists>x. m = Inr x \<and> f x = Inr y"
  by (cases m) (simp_all add: bind_err_def)

lemma on_fs_Inr: "on_fs op s = Inr s' \<Longrightarrow> \<exists>fs1. op (fst s) = Inr fs1 \<and> s' = (fs1, snd s)"
  unfolding on_fs_def by (cases "op (fst s)") (simp_all add: bind_err_def)

lemma run_steps_Cons_Inr:
  "run_steps (f # fs) s = Inr s' \<Longrightarrow> \<exists>s1. f s = Inr s1 \<and> run_steps fs s1 = Inr s'"
  unfolding run_steps.simps by (rule bind_err_Inr)

lemma on_fs_grows:
  assumes "\<And>fs fs'. op fs = Inr fs' \<Longrightarrow> fs_grows fs fs'"
  shows "step_grows (on_fs op)"
proof (rule step_growsI)
  fix s s' assume "on_fs op s = Inr s'"
  then obtain fs1 where "op (fst s) = Inr fs1" and "s' = (fs1, snd s)"
    using on_fs_Inr by blast
  then show "fs_grows (fst s) (fst s')" using assms by simp
qed

lemma on_fs_makes_dir:
  assumes "\<And>fs fs'. op fs = Inr fs' \<Longrightarrow> d \<in> dirs fs'"
  shows "step_makes_dir (on_fs op) d"
proof (rule step_makes_dirI)
  fix s s' assume "on_fs op s = Inr s'"
  then obtain fs1 where "op (fst s) = Inr fs1" and "s' = (fs1, snd s)"
    using on_fs_Inr by blast
  then show "d \<in> dirs (fst s')" using assms by simp
qed

lemma mkdir_step_grows: "step_grows (mkdir_step self d)"
  unfolding mkdir_step_def by (rule on_fs_grows) (simp add: mkdir_grows)

lemma mkdir_step_makes: "step_makes_dir (mkdir_step self d) (path_join (repo_path self) d)"
  unfolding mkdir_step_def by (rule on_fs_makes_dir) (simp add: mkdir_grows)

lemma write_text_step_grows: "step_grows (write_text_step self path txt)"
  unfolding write_text_step_def by (rule on_fs_grows) (simp add: write_file_grows)

lemma write_code_step_Inr:
  "write_code_step self path n tag s = Inr s' \<Longrightarrow>
     \<exists>fs1. write_file self path (fst (generate_code self n tag (snd s))) (fst s) = Inr fs1 \<and>
           s' = (fs1, snd (generate_code self n tag (snd s)))"
  unfolding write_code_step_def Let_def write_code_file_def
  by (cases "write_file self path (fst (generate_code self n tag (snd s))) (fst s)")
     (simp_all add: bind_err_def)

lemma write_code_step_grows: "step_grows (write_code_step self path n tag)"
proof (rule step_growsI)
  fix s s' assume "write_code_step self path n tag s = Inr s'"
  then obtain fs1 where "write_file self path (fst (generate_code self n tag (snd s))) (fst s) = Inr fs1"
    and "s' = (fs1, snd (generate_code self n tag (snd s)))"
    using write_code_step_Inr by blast
  then show "fs_grows (fst s) (fst s')" using write_file_grows by simp
qed

lemma write_code_step_writes:
  "step_writes (write_code_step self path n tag) (path_join (repo_path self) path)"
proof (rule step_writesI)
  fix s s' assume "write_code_step self path n tag s = Inr s'"
  then obtain fs1 where "write_file self path (fst (generate_code self n tag (snd s))) (fst s) = Inr fs1"
    and "s' = (fs1, snd (generate_code self n tag (snd s)))"
    using write_code_step_Inr by blast
  then show "path_join (repo_path self) path \<in> dom (contents (fst s'))"
    using write_file_grows by simp
qed

lemma run_steps_grows: "\<forall>f\<in>set fs. step_grows f \<Longrightarrow> step_grows (run_steps fs)"
proof (induction fs)
  case Nil
  show ?case by (rule step_growsI) (simp add: fs_grows_refl)
next
  case (Cons f fs)
  then have f: "step_grows f" and r: "step_grows (run_steps fs)" by simp_all
  show ?case
  proof (rule step_growsI)
    fix s s' assume "run_steps (f # fs) s = Inr s'"
    then obtain s1 where a: "f s = Inr s1" and b: "run_steps fs s1 = Inr s'"
      using run_steps_Cons_Inr by blast
    show "fs_grows (fst s) (fst s')"
      using step_growsD [OF f a] step_growsD [OF r b] by (rule fs_grows_trans)
  qed
qed

lemma code_files_Cons_Inr:
  "code_files self path_of lo hi tag (i # ns) s = Inr s' \<Longrightarrow>
     \<exists>s1. write_code_step self (path_of i) (fst (randint lo hi (snd s))) tag
              (fst s, snd (randint lo hi (snd s))) = Inr s1 \<and>
          code_files self path_of lo hi tag ns s1 = Inr s'"
  unfolding code_files.simps Let_def by (rule bind_err_Inr)

lemma code_files_grows: "step_grows (code_files self path_of lo hi tag ns)"
proof (induction ns)
  case Nil
  show ?case by (rule step_growsI) (simp add: fs_grows_refl)
next
  case (Cons i ns)
  show ?case
  proof (rule step_growsI)
    fix s s' assume "code_files self path_of lo hi tag (i # ns) s = Inr s'"
    then obtain s1 where
      a: "write_code_step self (path_of i) (fst (randint lo hi (snd s))) tag
         (fst s, snd (randint lo hi (snd s))) = Inr s1"
      and b: "code_files self path_of lo hi tag ns s1 = Inr s'"
      using code_files_Cons_Inr by blast
    have "fs_grows (fst s) (fst s1)" using step_growsD [OF write_code_step_grows a] by simp
    then show "fs_grows (fst s) (fst s')" using step_growsD [OF Cons b] by (rule fs_grows_trans)
  qed
qed

lemma code_files_loop_grows: "step_grows (code_files_loop self path_of a b lo hi tag)"
proof (rule step_growsI)
  fix s s' assume "code_files_loop self path_of a b lo hi tag s = Inr s'"
  then have "code_files self path_of lo hi tag [0..<nat (fst (randint a b (snd s)))]
               (fst s, snd (randint a b (snd s))) = Inr s'"
    by (simp add: code_files_loop_def Let_def)
  from step_growsD [OF code_files_grows this] show "fs_grows (fst s) (fst s')" by simp
qed

lemma text_files_grows: "step_grows (text_files self path_of txt ns)"
proof (induction ns)
  case Nil
  show ?case by (rule step_growsI) (simp add: fs_grows_refl)
next
  case (Cons i ns)
  show ?case
  proof (rule step_growsI)
    fix s s' assume "text_files self path_of txt (i # ns) s = Inr s'"
    then obtain s1 where a: "write_text_step self (path_of i) txt s = Inr s1"
      and b: "text_files self path_of txt ns s1 = Inr s'"
      unfolding text_files.simps by (blast dest: bind_err_Inr)
    show "fs_grows (fst s) (fst s')"
      using step_growsD [OF write_text_step_grows a] step_growsD [OF Cons b]
      by (rule fs_grows_trans)
  qed
qed

lemma text_files_loop_grows: "step_grows (text_files_loop self path_of txt a b)"
proof (rule step_growsI)
  fix s s' assume "text_files_loop self path_of txt a b s = Inr s'"
  then have "text_files self path_of txt [0..<nat (fst (randint a b (snd s)))]
               (fst s, snd (randint a b (snd s))) = Inr s'"
    by (simp add: text_files_loop_def Let_def)
  from step_growsD [OF text_files_grows this] show "fs_grows (fst s) (fst s')" by simp
qed

lemma with_ext_Inr:
  "with_ext self body s = Inr s' \<Longrightarrow>
     \<exists>ext. language_ext (language self) = Inr ext \<and> body ext s = Inr s'"
  unfolding with_ext_def by (rule bind_err_Inr)

lemma with_ext_grows: "(\<And>ext. step_grows (body ext)) \<Longrightarrow> step_grows (with_ext self body)"
proof (rule step_growsI)
  fix s s' assume g: "\<And>ext. step_grows (body ext)" and "with_ext self body s = Inr s'"
  then obtain ext where "body ext s = Inr s'" using with_ext_Inr by blast
  then show "fs_grows (fst s) (fst s')" using step_growsD [OF g] by blast
qed

lemma code_files_first:
  "step_writes (code_files self path_of lo hi tag (i # ns)) (path_join (repo_path self) (path_of i))"
proof (rule step_writesI)
  fix s s' assume "code_files self path_of lo hi tag (i # ns) s = Inr s'"
  then obtain s1 where
    w: "write_code_step self (path_of i) (fst (randint lo hi (snd s))) tag
         (fst s, snd (randint lo hi (snd s))) = Inr s1"
    and r: "code_files self path_of lo hi tag ns s1 = Inr s'"
    using code_files_Cons_Inr by blast
  have "path_join (repo_path self) (path_of i) \<in> dom (contents (fst s1))"
    using step_writesD [OF write_code_step_writes w] .
  with step_growsD [OF code_files_grows r]
  show "path_join (repo_path self) (path_of i) \<in> dom (contents (fst s'))"
    by (rule grows_file)
qed

lemma code_files_loop_first:
  assumes "1 \<le> a" "a \<le> b"
  shows "step_writes (code_files_loop self path_of a b lo hi tag) (path_join (repo_path self) (path_of 0))"
proof (rule step_writesI)
  fix s s' assume r: "code_files_loop self path_of a b lo hi tag s = Inr s'"
  define n where "n = nat (fst (randint a b (snd s)))"
  have "1 \<le> fst (randint a b (snd s))" using randint_range [OF assms(2), of "snd s"] assms(1) by linarith
  then have "0 < n" by (simp add: n_def)
  then have "[0..<n] = 0 # [1..<n]" by (simp add: upt_conv_Cons)
  moreover have "code_files self path_of lo hi tag [0..<n] (fst s, snd (randint a b (snd s))) = Inr s'"
    using r by (simp add: code_files_loop_def Let_def n_def)
  ultimately have "code_files self path_of lo hi tag (0 # [1..<n]) (fst s, snd (randint a b (snd s))) = Inr s'"
    by simp
  from step_writesD [OF code_files_first this]
  show "path_join (repo_path self) (path_of 0) \<in> dom (contents (fst s'))" .
qed

lemma run_steps_makes_dir_hd:
  assumes "step_makes_dir f d" "\<forall>g\<in>set fs. step_grows g"
  shows "step_makes_dir (run_steps (f # fs)) d"
proof (rule step_makes_dirI)
  fix s s' assume "run_steps (f # fs) s = Inr s'"
  then obtain s1 where a: "f s = Inr s1" and r: "run_steps fs s1 = Inr s'"
    using run_steps_Cons_Inr by blast
  from step_growsD [OF run_steps_grows [OF assms(2)] r] step_makes_dirD [OF assms(1) a]
  show "d \<in> dirs (fst s')" by (rule grows_dir)
qed

lemma run_steps_writes_hd:
  assumes "step_writes f p" "\<forall>g\<in>set fs. step_grows g"
  shows "step_writes (run_steps (f # fs)) p"
proof (rule step_writesI)
  fix s s' assume "run_steps (f # fs) s = Inr s'"
  then obtain s1 where a: "f s = Inr s1" and r: "run_steps fs s1 = Inr s'"
    using run_steps_Cons_Inr by blast
  from step_growsD [OF run_steps_grows [OF assms(2)] r] step_writesD [OF assms(1) a]
  show "p \<in> dom (contents (fst s'))" by (rule grows_file)
qed

lemma run_steps_writes_tl:
  assumes "step_writes (run_steps fs) p"
  shows "step_writes (run_steps (f # fs)) p"
proof (rule step_writesI)
  fix s s' assume "run_steps (f # fs) s = Inr s'"
  then obtain s1 where "run_steps fs s1 = Inr s'" using run_steps_Cons_Inr by blast
  from step_writesD [OF assms this] show "p \<in> dom (contents (fst s'))" .
qed

lemma with_ext_writes:
  assumes "\<And>ext. language_ext (language self) = Inr ext \<Longrightarrow> step_writes (body ext) (p ext)"
  shows "step_writes (with_ext self body) (p (structure_ext self))"
proof (rule step_writesI)
  fix s s' assume "with_ext self body s = Inr s'"
  then obtain ext where e: "language_ext (language self) = Inr ext" and b: "body ext s = Inr s'"
    using with_ext_Inr by blast
  have "structure_ext self = ext" using e by (simp add: structure_ext_def)
  then show "p (structure_ext self) \<in> dom (contents (fst s'))"
    using step_writesD [OF assms [OF e] b] by simp
qed

lemma run_steps_writes_nth:
  "i < length fs \<Longrightarrow> step_writes (fs ! i) p \<Longrightarrow> \<forall>g\<in>set (drop (Suc i) fs). step_grows g
     \<Longrightarrow> step_writes (run_steps fs) p"
proof (induction fs arbitrary: i)
  case Nil
  then show ?case by simp
next
  case (Cons f fs)
  show ?case
  proof (cases i)
    case 0
    then show ?thesis using Cons.prems by (intro run_steps_writes_hd) simp_all
  next
    case (Suc j)
    then show ?thesis using Cons.prems Cons.IH [of j] by (intro run_steps_writes_tl) simp
  qed
qed

lemma on_fs_mkdir_grows:
  "step_grows (on_fs (mkdir p))"
  "step_grows (on_fs (mkdir_parents p))"
  "step_grows (on_fs (mkdir_exist_ok p))"
  "step_grows (on_fs (mkdir_with_parents p))"
  by (rule on_fs_grows, simp add: mkdir_grows mkdir_parents_grows mkdir_exist_ok_grows
      mkdir_with_parents_grows)+

lemmas basic_grows = mkdir_step_grows write_text_step_grows write_code_step_grows
  code_files_loop_grows text_files_loop_grows on_fs_mkdir_grows

lemma create_config_files_grows: "step_grows (create_config_files texts self)"
  unfolding create_config_files_def by (rule run_steps_grows) (simp add: basic_grows)

lemma create_web_files_grows: "step_grows (create_web_files texts self)"
  unfolding create_web_files_def
  by (rule with_ext_grows, rule run_steps_grows) (simp add: basic_grows create_config_files_grows)

lemma create_service_files_grows: "step_grows (create_service_files self path nm)"
  unfolding create_service_files_def
  by (rule with_ext_grows, rule run_steps_grows) (simp add: basic_grows)

lemma create_infrastructure_files_grows: "step_grows (create_infrastructure_files texts self)"
  unfolding create_infrastructure_files_def Let_def
  by (rule run_steps_grows) (simp add: basic_grows)

lemma service_loop_grows: "step_grows (service_loop self ns)"
proof (induction ns)
  case Nil
  show ?case by (rule step_growsI) (simp add: fs_grows_refl)
next
  case (Cons i ns)
  define sp where "sp = path_join (path_join (repo_path self) ''services'') (service_name_of i)"
  have one: "step_grows (run_steps [on_fs (mkdir_with_parents sp),
                       create_service_files self sp (service_name_of i)])"
    by (rule run_steps_grows) (simp add: basic_grows create_service_files_grows)
  show ?case
  proof (rule step_growsI)
    fix s s' assume "service_loop self (i # ns) s = Inr s'"
    then obtain s1 where a: "run_steps [on_fs (mkdir_with_parents sp),
                       create_service_files self sp (service_name_of i)] s = Inr s1"
      and b: "service_loop self ns s1 = Inr s'"
      unfolding service_loop.simps Let_def sp_def by (blast dest: bind_err_Inr)
    show "fs_grows (fst s) (fst s')"
      using step_growsD [OF one a] step_growsD [OF Cons b] by (rule fs_grows_trans)
  qed
qed

lemma create_cli_files_grows: "step_grows (create_cli_files self)"
  unfolding create_cli_files_def
  by (rule with_ext_grows, rule run_steps_grows) (simp add: basic_grows)

lemma create_library_files_grows: "step_grows (create_library_files self)"
  unfolding create_library_files_def
  by (rule with_ext_grows, rule run_steps_grows) (simp add: basic_grows)

lemma create_ios_files_grows: "step_grows (create_ios_files self)"
  unfolding create_ios_files_def by (rule run_steps_grows) (simp add: basic_grows)

lemma create_android_files_grows: "step_grows (create_android_files self)"
  unfolding create_android_files_def Let_def by (rule run_steps_grows) (simp add: basic_grows)

lemma create_game_files_grows: "step_grows (create_game_files self)"
  unfolding create_game_files_def by (rule run_steps_grows) (simp add: basic_grows)

lemma create_data_files_grows: "step_grows (create_data_files self)"
  unfolding create_data_files_def
  by (rule with_ext_grows, rule run_steps_grows) (simp add: basic_grows)

lemma create_enterprise_files_grows: "step_grows (create_enterprise_files texts self)"
  unfolding create_enterprise_files_def
  by (rule with_ext_grows, rule run_steps_grows) (simp add: basic_grows)

lemmas create_grows = create_web_files_grows create_service_files_grows
  create_infrastructure_files_grows service_loop_grows create_cli_files_grows
  create_library_files_grows create_ios_files_grows create_android_files_grows
  create_game_files_grows create_data_files_grows create_enterprise_files_grows

lemma generate_structure_grows: "step_grows (generate_structure texts self)"
proof (cases "generate_structure_branch self")
  case Web
  then show ?thesis unfolding generate_structure_def generate_web_structure_def
    by (simp add: run_steps_grows basic_grows create_grows)
next
  case Microservice
  then show ?thesis unfolding generate_structure_def generate_microservice_structure_def Let_def
    by (simp add: run_steps_grows basic_grows create_grows)
next
  case Cli
  then show ?thesis unfolding generate_structure_def generate_cli_structure_def
    by (simp add: run_steps_grows basic_grows create_grows)
next
  case Library
  then show ?thesis unfolding generate_structure_def generate_library_structure_def
    by (simp add: run_steps_grows basic_grows create_grows)
next
  case Mobile
  then show ?thesis unfolding generate_structure_def generate_mobile_structure_def
    by (simp add: run_steps_grows basic_grows create_grows)
next
  case Game
  then show ?thesis unfolding generate_structure_def generate_game_structure_def
    by (simp add: run_steps_grows basic_grows create_grows)
next
  case Data
  then show ?thesis unfolding generate_structure_def generate_data_structure_def
    by (simp add: run_steps_grows basic_grows create_grows)
next
  case Enterprise
  then show ?thesis unfolding generate_structure_def generate_enterprise_structure_def
    by (simp add: run_steps_grows basic_grows create_grows)
qed

lemma generate_structure_makes_first_directory:
  "step_makes_dir (generate_structure texts self) (path_join (repo_path self) (first_directory self))"
proof (cases "generate_structure_branch self")
  case Web
  then show ?thesis unfolding generate_structure_def generate_web_structure_def first_directory_def
    by (simp add: run_steps_makes_dir_hd mkdir_step_makes basic_grows create_grows)
next
  case Microservice
  then show ?thesis
    unfolding generate_structure_def generate_microservice_structure_def first_directory_def Let_def
    by (simp add: run_steps_makes_dir_hd mkdir_step_makes basic_grows create_grows)
next
  case Cli
  then show ?thesis unfolding generate_structure_def generate_cli_structure_def first_directory_def
    by (simp add: run_steps_makes_dir_hd mkdir_step_makes basic_grows create_grows)
next
  case Library
  then show ?thesis unfolding generate_structure_def generate_library_structure_def first_directory_def
    by (simp add: run_steps_makes_dir_hd mkdir_step_makes basic_grows create_grows)
next
  case Mobile
  then show ?thesis unfolding generate_structure_def generate_mobile_structure_def first_directory_def
    by (simp add: run_steps_makes_dir_hd mkdir_step_makes basic_grows create_grows)
next
  case Game
  then show ?thesis unfolding generate_structure_def generate_game_structure_def first_directory_def
    by (simp add: run_steps_makes_dir_hd mkdir_step_makes basic_grows create_grows)
next
  case Data
  then show ?thesis unfolding generate_structure_def generate_data_structure_def first_directory_def
    by (simp add: run_steps_makes_dir_hd mkdir_step_makes basic_grows create_grows)
next
  case Enterprise
  then show ?thesis unfolding generate_structure_def generate_enterprise_structure_def first_directory_def
    by (simp add: run_steps_makes_dir_hd mkdir_step_makes basic_grows create_grows)
qed

lemma run_steps_writes_first:
  "step_writes f p \<Longrightarrow> \<forall>g\<in>set fs. step_grows g \<Longrightarrow> step_writes (run_steps (f # fs)) p"
  by (rule run_steps_writes_hd)

lemma create_web_files_writes:
  "step_writes (create_web_files texts self) (path_join (repo_path self) (''src/app'' @ structure_ext self))"
  unfolding create_web_files_def
  by (rule with_ext_writes [where p = "\<lambda>ext. path_join (repo_path self) (''src/app'' @ ext)"])
     (simp add: run_steps_writes_hd write_code_step_writes basic_grows create_config_files_grows)

lemma create_service_files_writes:
  "step_writes (create_service_files self path nm)
     (path_join (repo_path self) (path @ ''/src/main'' @ structure_ext self))"
  unfolding create_service_files_def
proof (rule with_ext_writes [where p = "\<lambda>ext. path_join (repo_path self) (path @ ''/src/main'' @ ext)"])
  fix ext
  show "step_writes
          (run_steps
            [on_fs (mkdir_exist_ok (path_join path ''src'')),
             on_fs (mkdir_exist_ok (path_join path ''tests'')),
             on_fs (mkdir_exist_ok (path_join path ''config'')),
             write_code_step self (path @ ''/src/main'' @ ext) 200 ''service_main'',
             write_code_step self (path @ ''/src/handlers'' @ ext) 300 ''handlers'',
             write_code_step self (path @ ''/src/models'' @ ext) 150 ''models'',
             write_code_step self (path @ ''/src/repository'' @ ext) 200 ''repository'',
             code_files_loop self (\<lambda>i. path @ ''/tests/test'' @ str_of_nat i @ ext) 5 15 50 150 ''test''])
          (path_join (repo_path self) (path @ ''/src/main'' @ ext))"
    by (rule run_steps_writes_nth [where i = 3]) (simp_all add: write_code_step_writes basic_grows)
qed

lemma create_cli_files_writes:
  "step_writes (create_cli_files self) (path_join (repo_path self) (''cmd/main'' @ structure_ext self))"
  unfolding create_cli_files_def
  by (rule with_ext_writes [where p = "\<lambda>ext. path_join (repo_path self) (''cmd/main'' @ ext)"])
     (simp add: run_steps_writes_hd write_code_step_writes basic_grows)

lemma create_library_files_writes:
  "step_writes (create_library_files self) (path_join (repo_path self) (''src/core'' @ structure_ext self))"
  unfolding create_library_files_def
  by (rule with_ext_writes [where p = "\<lambda>ext. path_join (repo_path self) (''src/core'' @ ext)"])
     (simp add: run_steps_writes_hd write_code_step_writes basic_grows)

lemma create_ios_files_writes:
  "step_writes (create_ios_files self) (path_join (repo_path self) ''Sources/View0.swift'')"
proof -
  have "str_of_nat 0 = ''0''" by (simp add: str_of_nat.simps digit_char_def)
  then show ?thesis
    unfolding create_ios_files_def
    using code_files_loop_first [of 10 30 self "\<lambda>i. ''Sources/View'' @ str_of_nat i @ ''.swift''" 50 200 "''swift_view''"]
    by (intro run_steps_writes_hd) (simp_all add: basic_grows)
qed

lemma create_android_files_writes:
  "step_writes (create_android_files self)
     (path_join (repo_path self) ''app/src/main/java/com/example/app/Activity0.kt'')"
proof -
  have "str_of_nat 0 = ''0''" by (simp add: str_of_nat.simps digit_char_def)
  then show ?thesis
    unfolding create_android_files_def Let_def
    using code_files_loop_first [of 10 30 self
        "\<lambda>i. ''app/src/main/java/com/example/app'' @ ''/Activity'' @ str_of_nat i @ ''.kt''"
        50 200 "''kotlin_activity''"]
    by (intro run_steps_writes_hd) (simp_all add: basic_grows)
qed

lemma create_game_files_writes:
  "step_writes (create_game_files self) (path_join (repo_path self) ''Assets/Scripts/Script0.cs'')"
proof -
  have "str_of_nat 0 = ''0''" by (simp add: str_of_nat.simps digit_char_def)
  then show ?thesis
    unfolding create_game_files_def
    using code_files_loop_first [of 20 50 self "\<lambda>i. ''Assets/Scripts/Script'' @ str_of_nat i @ ''.cs''"
        50 300 "''game_script''"]
    by (intro run_steps_writes_hd) (simp_all add: basic_grows)
qed

lemma create_data_files_writes:
  "step_writes (create_data_files self)
     (path_join (repo_path self) (''pipelines/pipeline0'' @ structure_ext self))"
  unfolding create_data_files_def
proof (rule with_ext_writes [where p = "\<lambda>ext. path_join (repo_path self) (''pipelines/pipeline0'' @ ext)"])
  fix ext
  have "str_of_nat 0 = ''0''" by (simp add: str_of_nat.simps digit_char_def)
  then show "step_writes
          (run_steps
            [code_files_loop self (\<lambda>i. ''pipelines/pipeline'' @ str_of_nat i @ ext) 5 15 200 600 ''pipeline'',
             code_files_loop self (\<lambda>i. ''transformations/transform'' @ str_of_nat i @ ext)
               10 20 100 300 ''transform''])
          (path_join (repo_path self) (''pipelines/pipeline0'' @ ext))"
    using code_files_loop_first [of 5 15 self "\<lambda>i. ''pipelines/pipeline'' @ str_of_nat i @ ext"
        200 600 "''pipeline''"]
    by (intro run_steps_writes_hd) (simp_all add: basic_grows)
qed

lemma create_enterprise_files_writes:
  "step_writes (create_enterprise_files texts self)
     (path_join (repo_path self) (''backend/src/module0'' @ structure_ext self))"
  unfolding create_enterprise_files_def
proof (rule with_ext_writes [where p = "\<lambda>ext. path_join (repo_path self) (''backend/src/module0'' @ ext)"])
  fix ext
  have "str_of_nat 0 = ''0''" by (simp add: str_of_nat.simps digit_char_def)
  then show "step_writes
          (run_steps
            [code_files_loop self (\<lambda>i. ''backend/src/module'' @ str_of_nat i @ ext) 20 50 100 500 ''backend'',
             code_files_loop self (\<lambda>i. ''frontend/src/component'' @ str_of_nat i @ ext)
               20 50 100 400 ''frontend'',
             text_files_loop self (\<lambda>i. ''database/migrations/migration'' @ zfill3 i @ ''.sql'')
               (texts ''_generate_sql_migration'' self) 10 30])
          (path_join (repo_path self) (''backend/src/module0'' @ ext))"
    using code_files_loop_first [of 20 50 self "\<lambda>i. ''backend/src/module'' @ str_of_nat i @ ext"
        100 500 "''backend''"]
    by (intro run_steps_writes_hd) (simp_all add: basic_grows)
qed

lemma generate_structure_writes_first_file:
  "step_writes (generate_structure texts self) (path_join (repo_path self) (first_file self))"
proof (cases "generate_structure_branch self")
  case Web
  show ?thesis unfolding generate_structure_def generate_web_structure_def first_file_def Web
    using create_web_files_writes [of texts self]
    by (simp only: archetype.case if_True if_False, intro run_steps_writes_nth [where i = 14]) (simp_all)
next
  case Microservice
  show ?thesis
    unfolding generate_structure_def generate_microservice_structure_def first_file_def Let_def
      Microservice
    using create_service_files_writes [of self "path_join (repo_path self) ''api-gateway''" "''gateway''"]
    by (simp only: archetype.case if_True if_False, intro run_steps_writes_nth [where i = 1]) (simp_all add: basic_grows create_grows)
next
  case Cli
  show ?thesis unfolding generate_structure_def generate_cli_structure_def first_file_def Cli
    using create_cli_files_writes [of self]
    by (simp only: archetype.case if_True if_False, intro run_steps_writes_nth [where i = 4]) (simp_all)
next
  case Library
  show ?thesis unfolding generate_structure_def generate_library_structure_def first_file_def Library
    using create_library_files_writes [of self]
    by (simp only: archetype.case if_True if_False, intro run_steps_writes_nth [where i = 5]) (simp_all)
next
  case Mobile
  show ?thesis
  proof (cases "str_contains ''ios'' (category self)")
    case True
    then show ?thesis
      unfolding generate_structure_def generate_mobile_structure_def first_file_def Mobile
      using create_ios_files_writes [of self]
    by (simp only: archetype.case if_True if_False, intro run_steps_writes_nth [where i = 3]) (simp_all)
  next
    case False
    then show ?thesis
      unfolding generate_structure_def generate_mobile_structure_def first_file_def Mobile
      using create_android_files_writes [of self]
    by (simp only: archetype.case if_True if_False, intro run_steps_writes_nth [where i = 4]) (simp_all)
  qed
next
  case Game
  show ?thesis unfolding generate_structure_def generate_game_structure_def first_file_def Game
    using create_game_files_writes [of self]
    by (simp only: archetype.case if_True if_False, intro run_steps_writes_nth [where i = 6]) (simp_all)
next
  case Data
  show ?thesis unfolding generate_structure_def generate_data_structure_def first_file_def Data
    using create_data_files_writes [of self]
    by (simp only: archetype.case if_True if_False, intro run_steps_writes_nth [where i = 6]) (simp_all)
next
  case Enterprise
  show ?thesis
    unfolding generate_structure_def generate_enterprise_structure_def first_file_def Enterprise
    using create_enterprise_files_writes [of texts self]
    by (simp only: archetype.case if_True if_False, intro run_steps_writes_nth [where i = 10]) (simp_all)
qed

section \<open>The command-line structure in a fresh repository\<close>

lemma str_of_nat_digits: "set (str_of_nat n) \<subseteq> set ''0123456789''"
proof (induction n rule: str_of_nat.induct)
  case (1 n)
  show ?case
  proof (cases "n < 10")
    case True
    then show ?thesis using digit_char_in [of n] by (subst str_of_nat.simps) simp
  next
    case False
    with 1 show ?thesis using digit_char_in [of "n mod 10"] by (subst str_of_nat.simps) simp
  qed
qed

lemma str_of_nat_no_slash: "CHR ''/'' \<notin> set (str_of_nat n)"
  using str_of_nat_digits [of n] by auto

lemma parent_join:
  assumes "a \<noteq> []" and "CHR ''/'' \<notin> set b"
  shows "parent (a @ ''/'' @ b) = a"
proof -
  have "dropWhile (\<lambda>c. c \<noteq> CHR ''/'') (rev b @ CHR ''/'' # rev a)
          = dropWhile (\<lambda>c. c \<noteq> CHR ''/'') (CHR ''/'' # rev a)"
  proof (rule dropWhile_append2)
    fix x assume "x \<in> set (rev b)"
    then show "x \<noteq> CHR ''/''" using assms(2) by auto
  qed
  then have "dropWhile (\<lambda>c. c \<noteq> CHR ''/'') (rev b @ CHR ''/'' # rev a) = CHR ''/'' # rev a"
    by simp
  then have "rev (dropWhile (\<lambda>c. c \<noteq> CHR ''/'') (rev (a @ ''/'' @ b))) = a @ ''/''"
    by simp
  then show ?thesis using assms(1) by (simp only: parent_def Let_def) simp
qed

lemma path_join_rel: "\<not> prefix ''/'' b \<Longrightarrow> path_join a b = a @ ''/'' @ b"
  by (simp add: path_join_def)

lemma mkdir_ok:
  assumes "p \<notin> dirs fs" "p \<notin> dom (contents fs)" "parent p \<in> dirs fs" "parent p \<notin> dom (contents fs)"
  shows "mkdir p fs = Inr (fs\<lparr>dirs := insert p (dirs fs)\<rparr>)"
  using assms by (simp add: mkdir_def)

lemma mkdir_parents_existing: "p \<in> dirs fs \<Longrightarrow> mkdir_parents p fs = Inr fs"
  by (subst mkdir_parents.simps) (simp add: mkdir_def)

lemma write_code_file_ok:
  assumes rp: "repo_path self \<noteq> []"
    and name: "CHR ''/'' \<notin> set name"
    and rel: "\<not> prefix ''/'' dir" "dir \<noteq> []"
    and d: "path_join (repo_path self) dir \<in> dirs fs"
    and f: "path_join (repo_path self) (dir @ ''/'' @ name) \<notin> dirs fs"
  shows "write_code_file self (dir @ ''/'' @ name) content fs =
           Inr (fs\<lparr>contents := (contents fs)(path_join (repo_path self) (dir @ ''/'' @ name) \<mapsto> content)\<rparr>)"
proof -
  have rel': "\<not> prefix ''/'' (dir @ ''/'' @ name)" using rel by (cases dir) auto
  have fp: "path_join (repo_path self) (dir @ ''/'' @ name) = (repo_path self @ ''/'' @ dir) @ ''/'' @ name"
    using rel' by (simp add: path_join_def)
  have pd: "path_join (repo_path self) dir = repo_path self @ ''/'' @ dir"
    using rel by (simp add: path_join_def)
  have par: "parent (path_join (repo_path self) (dir @ ''/'' @ name)) = path_join (repo_path self) dir"
    unfolding fp pd by (rule parent_join) (simp_all add: name)
  show ?thesis
    unfolding write_code_file_def write_file_def Let_def par
    using mkdir_parents_existing [OF d] f by simp
qed

lemma language_ext_no_slash: "language_ext l = Inr ext \<Longrightarrow> CHR ''/'' \<notin> set ext"
  by (auto simp: language_ext_def LANGUAGES_def split: if_splits)


lemma not_a_directory:
  assumes "fs_wf fs" "parent f \<notin> dirs fs" "parent f \<noteq> f"
  shows "f \<notin> dirs fs"
  using assms by (auto simp: fs_wf_def)


lemma write_code_step_ok:
  assumes rp: "repo_path self \<noteq> []"
    and name: "CHR ''/'' \<notin> set name"
    and rel: "\<not> prefix ''/'' dir" "dir \<noteq> []"
    and d: "path_join (repo_path self) dir \<in> dirs fs"
    and f: "path_join (repo_path self) (dir @ ''/'' @ name) \<notin> dirs fs"
  shows "write_code_step self (dir @ ''/'' @ name) n tag (fs, g) =
           Inr (fs\<lparr>contents := (contents fs)(path_join (repo_path self) (dir @ ''/'' @ name)
                   \<mapsto> fst (generate_code self n tag g))\<rparr>,
                snd (generate_code self n tag g))"
  using write_code_file_ok [OF assms]
  by (simp add: write_code_step_def Let_def bind_err_def)

lemma code_files_spec:
  assumes rp: "repo_path self \<noteq> []"
    and nm: "\<And>i. CHR ''/'' \<notin> set (name i)"
    and rel: "\<not> prefix ''/'' dir" "dir \<noteq> []"
    and t: "path_join (repo_path self) dir \<in> dirs fs"
    and f: "\<forall>i\<in>set ns. path_join (repo_path self) (dir @ ''/'' @ name i) \<notin> dirs fs"
  shows "\<exists>fs' g'. code_files self (\<lambda>i. dir @ ''/'' @ name i) lo hi tag ns (fs, g) = Inr (fs', g') \<and>
           dirs fs' = dirs fs \<and>
           dom (contents fs') = dom (contents fs) \<union>
              (\<lambda>i. path_join (repo_path self) (dir @ ''/'' @ name i)) ` set ns \<and>
           (\<forall>p. p \<notin> (\<lambda>i. path_join (repo_path self) (dir @ ''/'' @ name i)) ` set ns
                \<longrightarrow> contents fs' p = contents fs p)"
  using t f
proof (induction ns arbitrary: fs g)
  case Nil
  show ?case by simp
next
  case (Cons i ns)
  define tf where "tf = (\<lambda>i. path_join (repo_path self) (dir @ ''/'' @ name i))"
  define budget where "budget = randint lo hi g"
  define code where "code = generate_code self (fst budget) tag (snd budget)"
  define fs1 where "fs1 = fs\<lparr>contents := (contents fs)(tf i \<mapsto> fst code)\<rparr>"
  have w: "write_code_step self (dir @ ''/'' @ name i) (fst budget) tag (fs, snd budget)
            = Inr (fs1, snd code)"
    using Cons.prems write_code_step_ok [where self = self and name = "name i" and dir = dir
        and fs = fs and n = "fst budget" and tag = tag and g = "snd budget", OF rp nm rel]
    by (simp add: fs1_def tf_def code_def)
  have d1: "dirs fs1 = dirs fs" by (simp add: fs1_def)
  have t1: "path_join (repo_path self) dir \<in> dirs fs1" using Cons.prems d1 by simp
  have f1: "\<forall>i\<in>set ns. path_join (repo_path self) (dir @ ''/'' @ name i) \<notin> dirs fs1"
    using Cons.prems d1 by simp
  from Cons.IH [OF t1 f1, of "snd code"]
  obtain fs' g' where r: "code_files self (\<lambda>i. dir @ ''/'' @ name i) lo hi tag ns (fs1, snd code) = Inr (fs', g')"
    and d: "dirs fs' = dirs fs1"
    and dm: "dom (contents fs') = dom (contents fs1) \<union> tf ` set ns"
    and keep: "\<forall>p. p \<notin> tf ` set ns \<longrightarrow> contents fs' p = contents fs1 p"
    unfolding tf_def by blast
  have e: "code_files self (\<lambda>i. dir @ ''/'' @ name i) lo hi tag (i # ns) (fs, g) = Inr (fs', g')"
    using w r by (simp add: Let_def bind_err_def budget_def [symmetric])
  have dm': "dom (contents fs') = dom (contents fs) \<union> tf ` set (i # ns)"
    using dm by (auto simp: fs1_def)
  have keep': "\<forall>p. p \<notin> tf ` set (i # ns) \<longrightarrow> contents fs' p = contents fs p"
    using keep by (auto simp: fs1_def)
  show ?case using e d d1 dm' keep' unfolding tf_def by blast
qed

lemma parent_in_dir:
  assumes "a \<noteq> []" "CHR ''/'' \<notin> set name" "\<not> prefix ''/'' dir" "dir \<noteq> []"
  shows "parent (path_join a (dir @ ''/'' @ name)) = path_join a dir"
proof -
  have rel': "\<not> prefix ''/'' (dir @ ''/'' @ name)" using assms by (cases dir) auto
  have fp: "path_join a (dir @ ''/'' @ name) = (a @ ''/'' @ dir) @ ''/'' @ name"
    using rel' by (simp add: path_join_def)
  have pd: "path_join a dir = a @ ''/'' @ dir" using assms by (simp add: path_join_def)
  show ?thesis unfolding fp pd by (rule parent_join) (simp_all add: assms)
qed

lemma mkdir_in_repo:
  assumes "a \<in> dirs fs" "a \<notin> dom (contents fs)" "a \<noteq> []" "CHR ''/'' \<notin> set d"
    and "path_join a d \<notin> dirs fs" "path_join a d \<notin> dom (contents fs)"
  shows "mkdir (path_join a d) fs = Inr (fs\<lparr>dirs := insert (path_join a d) (dirs fs)\<rparr>)"
proof -
  have "\<not> prefix ''/'' d" using assms(4) by (cases d) auto
  then have pj: "path_join a d = a @ ''/'' @ d" by (simp add: path_join_def)
  have "parent (a @ ''/'' @ d) = a" by (rule parent_join) (use assms in simp_all)
  then show ?thesis using assms by (intro mkdir_ok) (simp_all add: pj)
qed

lemma file_path_not_dir_path:
  assumes "CHR ''/'' \<notin> set d'" "\<not> prefix ''/'' d" "d \<noteq> []"
  shows "path_join a (d @ ''/'' @ name) \<noteq> path_join a d'"
proof
  assume e: "path_join a (d @ ''/'' @ name) = path_join a d'"
  have "\<not> prefix ''/'' (d @ ''/'' @ name)" using assms by (cases d) auto
  moreover have "\<not> prefix ''/'' d'" using assms(1) by (cases d') auto
  ultimately have "d @ ''/'' @ name = d'" using e by (simp add: path_join_def)
  then have "CHR ''/'' \<in> set d'" by auto
  with assms(1) show False by simp
qed


lemma cli_structure_spec:
  assumes ext: "language_ext (language self) = Inr ext"
    and wf: "fs_wf fs"
    and rp: "repo_path self \<in> dirs fs" "repo_path self \<noteq> []"
    and fresh: "\<forall>d\<in>set [''cmd'', ''internal'', ''pkg'', ''tests''].
                  path_join (repo_path self) d \<notin> dirs fs \<and>
                  path_join (repo_path self) d \<notin> dom (contents fs)"
  shows "\<exists>fs' g' n. generate_cli_structure self (fs, g) = Inr (fs', g') \<and>
      dirs fs' = dirs fs \<union> path_join (repo_path self) ` set [''cmd'', ''internal'', ''pkg'', ''tests''] \<and>
      10 \<le> n \<and> n \<le> 30 \<and>
      dom (contents fs') = dom (contents fs) \<union>
        path_join (repo_path self) `
          (set [''cmd/main'' @ ext, ''internal/commands'' @ ext, ''internal/config'' @ ext,
                ''pkg/utils'' @ ext] \<union>
           (\<lambda>i. ''tests/test'' @ str_of_nat i @ ext) ` {0..<n}) \<and>
      contents fs' (path_join (repo_path self) (''cmd/main'' @ ext))
        = Some (fst (generate_code self 300 ''cli_main'' g))"
proof -
  define a where "a = repo_path self"
  define Dc where "Dc = path_join a ''cmd''"
  define Di where "Di = path_join a ''internal''"
  define Dp where "Dp = path_join a ''pkg''"
  define Dt where "Dt = path_join a ''tests''"
  define four where "four = {Dc, Di, Dp, Dt}"
  have es: "CHR ''/'' \<notin> set ext" using ext by (rule language_ext_no_slash)
  have a: "a \<in> dirs fs" "a \<noteq> []" using rp by (simp_all add: a_def)
  have anf: "a \<notin> dom (contents fs)" using wf a by (auto simp: fs_wf_def)
  have fr: "Dc \<notin> dirs fs" "Di \<notin> dirs fs" "Dp \<notin> dirs fs" "Dt \<notin> dirs fs"
    "Dc \<notin> dom (contents fs)" "Di \<notin> dom (contents fs)" "Dp \<notin> dom (contents fs)"
    "Dt \<notin> dom (contents fs)"
    using fresh by (simp_all add: a_def Dc_def Di_def Dp_def Dt_def)
  have ne: "Dc \<noteq> Di" "Dc \<noteq> Dp" "Dc \<noteq> Dt" "Di \<noteq> Dp" "Di \<noteq> Dt" "Dp \<noteq> Dt"
    by (simp_all add: Dc_def Di_def Dp_def Dt_def path_join_def)
  \<comment> \<open>the four directories\<close>
  define fs1 where "fs1 = fs\<lparr>dirs := insert Dc (dirs fs)\<rparr>"
  define fs2 where "fs2 = fs1\<lparr>dirs := insert Di (dirs fs1)\<rparr>"
  define fs3 where "fs3 = fs2\<lparr>dirs := insert Dp (dirs fs2)\<rparr>"
  define fs4 where "fs4 = fs3\<lparr>dirs := insert Dt (dirs fs3)\<rparr>"
  have m1: "mkdir Dc fs = Inr fs1"
    unfolding Dc_def fs1_def using a anf fr by (intro mkdir_in_repo) (simp_all add: Dc_def)
  have m2: "mkdir Di fs1 = Inr fs2"
    unfolding Di_def fs2_def using a anf fr ne
    by (intro mkdir_in_repo) (simp_all add: Di_def fs1_def)
  have m3: "mkdir Dp fs2 = Inr fs3"
    unfolding Dp_def fs3_def using a anf fr ne
    by (intro mkdir_in_repo) (simp_all add: Dp_def fs2_def fs1_def)
  have m4: "mkdir Dt fs3 = Inr fs4"
    unfolding Dt_def fs4_def using a anf fr ne
    by (intro mkdir_in_repo) (simp_all add: Dt_def fs3_def fs2_def fs1_def)
  have d4: "dirs fs4 = dirs fs \<union> four"
    by (auto simp: fs4_def fs3_def fs2_def fs1_def four_def)
  have c4: "contents fs4 = contents fs"
    by (simp add: fs4_def fs3_def fs2_def fs1_def)
  \<comment> \<open>no file path below one of them is a directory\<close>
  have nd: "path_join a (d @ ''/'' @ name) \<notin> dirs fs4"
    if d: "d \<in> set [''cmd'', ''internal'', ''pkg'', ''tests'']" and nm: "CHR ''/'' \<notin> set name"
    for d name
  proof -
    have rel: "\<not> prefix ''/'' d" "d \<noteq> []" using d by auto
    have par: "parent (path_join a (d @ ''/'' @ name)) = path_join a d"
      by (rule parent_in_dir [OF a(2) nm rel])
    have "path_join a d \<notin> dirs fs" using fresh d unfolding a_def by blast
    moreover have "path_join a (d @ ''/'' @ name) \<noteq> path_join a d"
      by (rule file_path_not_dir_path) (use d in auto)
    ultimately have "path_join a (d @ ''/'' @ name) \<notin> dirs fs"
      using not_a_directory [OF wf, of "path_join a (d @ ''/'' @ name)"] par by simp
    moreover have "path_join a (d @ ''/'' @ name) \<notin> four"
      unfolding four_def Dc_def Di_def Dp_def Dt_def
      using file_path_not_dir_path [of _ d a name] rel by simp
    ultimately show ?thesis by (simp add: d4)
  qed
  \<comment> \<open>the four fixed files\<close>
  define c1 where "c1 = generate_code self 300 ''cli_main'' g"
  define c2 where "c2 = generate_code self 500 ''commands'' (snd c1)"
  define c3 where "c3 = generate_code self 150 ''config'' (snd c2)"
  define c4' where "c4' = generate_code self 200 ''utils'' (snd c3)"
  define F1 where "F1 = path_join a (''cmd/main'' @ ext)"
  define F2 where "F2 = path_join a (''internal/commands'' @ ext)"
  define F3 where "F3 = path_join a (''internal/config'' @ ext)"
  define F4 where "F4 = path_join a (''pkg/utils'' @ ext)"
  define fs5 where "fs5 = fs4\<lparr>contents := (contents fs4)(F1 \<mapsto> fst c1)\<rparr>"
  define fs6 where "fs6 = fs5\<lparr>contents := (contents fs5)(F2 \<mapsto> fst c2)\<rparr>"
  define fs7 where "fs7 = fs6\<lparr>contents := (contents fs6)(F3 \<mapsto> fst c3)\<rparr>"
  define fs8 where "fs8 = fs7\<lparr>contents := (contents fs7)(F4 \<mapsto> fst c4')\<rparr>"
  have d8: "dirs fs5 = dirs fs4" "dirs fs6 = dirs fs4" "dirs fs7 = dirs fs4" "dirs fs8 = dirs fs4"
    by (simp_all add: fs5_def fs6_def fs7_def fs8_def)
  have din: "Dc \<in> dirs fs4" "Di \<in> dirs fs4" "Dp \<in> dirs fs4" "Dt \<in> dirs fs4"
    by (simp_all add: d4 four_def)
  have w1: "write_code_step self (''cmd/main'' @ ext) 300 ''cli_main'' (fs4, g) = Inr (fs5, snd c1)"
    using write_code_step_ok [of self "''main'' @ ext" "''cmd''" fs4 300 "''cli_main''" g]
      nd [of "''cmd''" "''main'' @ ext"] a es din
    by (simp add: a_def [symmetric] Dc_def [symmetric] fs5_def F1_def c1_def)
  have w2: "write_code_step self (''internal/commands'' @ ext) 500 ''commands'' (fs5, snd c1)
              = Inr (fs6, snd c2)"
    using write_code_step_ok [of self "''commands'' @ ext" "''internal''" fs5 500 "''commands''" "snd c1"]
      nd [of "''internal''" "''commands'' @ ext"] a es din d8
    by (simp add: a_def [symmetric] Di_def [symmetric] fs6_def F2_def c2_def)
  have w3: "write_code_step self (''internal/config'' @ ext) 150 ''config'' (fs6, snd c2)
              = Inr (fs7, snd c3)"
    using write_code_step_ok [of self "''config'' @ ext" "''internal''" fs6 150 "''config''" "snd c2"]
      nd [of "''internal''" "''config'' @ ext"] a es din d8
    by (simp add: a_def [symmetric] Di_def [symmetric] fs7_def F3_def c3_def)
  have w4: "write_code_step self (''pkg/utils'' @ ext) 200 ''utils'' (fs7, snd c3)
              = Inr (fs8, snd c4')"
    using write_code_step_ok [of self "''utils'' @ ext" "''pkg''" fs7 200 "''utils''" "snd c3"]
      nd [of "''pkg''" "''utils'' @ ext"] a es din d8
    by (simp add: a_def [symmetric] Dp_def [symmetric] fs8_def F4_def c4'_def)
  \<comment> \<open>the test files\<close>
  define nr where "nr = randint 10 30 (snd c4')"
  define n where "n = nat (fst nr)"
  have nb: "10 \<le> n" "n \<le> 30" using randint_range [of 10 30 "snd c4'"] unfolding n_def nr_def by linarith+
  define tf where "tf = (\<lambda>i. path_join a (''tests/test'' @ str_of_nat i @ ext))"
  have tnm: "\<And>i. CHR ''/'' \<notin> set (''test'' @ str_of_nat i @ ext)"
    using es str_of_nat_no_slash by simp
  have tnd: "\<forall>i\<in>set [0..<n]. path_join (repo_path self)
                (''tests'' @ ''/'' @ (''test'' @ str_of_nat i @ ext)) \<notin> dirs fs8"
  proof
    fix i assume "i \<in> set [0..<n]"
    from nd [of "''tests''" "''test'' @ str_of_nat i @ ext", OF _ tnm]
    show "path_join (repo_path self) (''tests'' @ ''/'' @ (''test'' @ str_of_nat i @ ext)) \<notin> dirs fs8"
      by (simp add: d8 a_def)
  qed
  have t8: "path_join (repo_path self) ''tests'' \<in> dirs fs8"
    using din by (simp add: d8 Dt_def a_def)
  from code_files_spec [OF rp(2) tnm _ _ t8 tnd, of 50 150 "''test''" "snd nr"]
  obtain fs' g' where r: "code_files self (\<lambda>i. ''tests/test'' @ str_of_nat i @ ext) 50 150 ''test''
                            [0..<n] (fs8, snd nr) = Inr (fs', g')"
    and d': "dirs fs' = dirs fs8"
    and dm: "dom (contents fs') = dom (contents fs8) \<union> tf ` set [0..<n]"
    and keep: "\<forall>p. p \<notin> tf ` set [0..<n] \<longrightarrow> contents fs' p = contents fs8 p"
    unfolding tf_def a_def by auto
  have cf: "create_cli_files self (fs4, g) = Inr (fs', g')"
    using ext w1 w2 w3 w4 r
    by (simp add: create_cli_files_def with_ext_def code_files_loop_def bind_err_def Let_def
        nr_def [symmetric] n_def [symmetric])
  have gs: "generate_cli_structure self (fs, g) = Inr (fs', g')"
    using m1 m2 m3 m4 cf
    by (simp add: generate_cli_structure_def mkdir_step_def on_fs_def bind_err_def
        a_def [symmetric] Dc_def [symmetric] Di_def [symmetric] Dp_def [symmetric]
        Dt_def [symmetric])
  have r1: "dirs fs' = dirs fs \<union> path_join (repo_path self) ` set [''cmd'', ''internal'', ''pkg'', ''tests'']"
    using d' d8 d4 by (simp add: four_def Dc_def Di_def Dp_def Dt_def a_def)
  have dm8: "dom (contents fs8) = dom (contents fs) \<union> {F1, F2, F3, F4}"
    by (auto simp: fs8_def fs7_def fs6_def fs5_def c4)
  have r2: "dom (contents fs') = dom (contents fs) \<union>
        path_join (repo_path self) `
          (set [''cmd/main'' @ ext, ''internal/commands'' @ ext, ''internal/config'' @ ext,
                ''pkg/utils'' @ ext] \<union>
           (\<lambda>i. ''tests/test'' @ str_of_nat i @ ext) ` {0..<n})"
    using dm dm8 by (simp add: F1_def F2_def F3_def F4_def tf_def a_def image_Un image_image)
  have "F1 \<notin> tf ` set [0..<n]" by (auto simp: F1_def tf_def path_join_def)
  then have "contents fs' F1 = contents fs8 F1" using keep by blast
  moreover have "F1 \<noteq> F2" "F1 \<noteq> F3" "F1 \<noteq> F4"
    by (simp_all add: F1_def F2_def F3_def F4_def path_join_def)
  ultimately have r3: "contents fs' F1 = Some (fst c1)"
    by (simp add: fs8_def fs7_def fs6_def fs5_def)
  show ?thesis
    using gs r1 nb r2 r3 unfolding F1_def c1_def a_def by blast
qed

section \<open>The claim about the structure methods\<close>

lemma example_ext: "language_ext (language example_generator) = Inr ''.py''"
  by (simp add: language_ext_def LANGUAGES_def example_generator_def)

lemma example_branch: "generate_structure_branch example_generator = Cli"
  by (simp add: generate_structure_branch_def example_generator_def)

lemma fresh_fs_wf: "fs_wf fresh_fs"
  by (simp add: fs_wf_def fresh_fs_def parent_def)

lemma fresh_fs_repo:
  "repo_path example_generator \<in> dirs fresh_fs" "repo_path example_generator \<noteq> []"
  "\<forall>d\<in>set [''cmd'', ''internal'', ''pkg'', ''tests''].
      path_join (repo_path example_generator) d \<notin> dirs fresh_fs \<and>
      path_join (repo_path example_generator) d \<notin> dom (contents fresh_fs)"
  by (simp_all add: example_generator_def fresh_fs_def path_join_def)

lemma generate_structure_effect:
  assumes "generate_structure texts self (fs, g) = Inr (fs', g')"
  shows "dirs fs \<subseteq> dirs fs' \<and> dom (contents fs) \<subseteq> dom (contents fs') \<and>
         path_join (repo_path self) (first_directory self) \<in> dirs fs' \<and>
         path_join (repo_path self) (first_file self) \<in> dom (contents fs')"
  using step_growsD [OF generate_structure_grows assms]
    step_makes_dirD [OF generate_structure_makes_first_directory assms]
    step_writesD [OF generate_structure_writes_first_file assms]
  by (simp add: fs_grows_def)

text \<open>
  Claim C5, as the code has it. Whenever the structure method of a generator returns,
  it has removed nothing, its first directory exists and so does its first file: the
  step that makes the directories also writes the files. For the command-line
  structure this is what happens in every well-formed file system where the repository
  directory exists and none of \<^verbatim>\<open>cmd\<close>, \<^verbatim>\<open>internal\<close>, \<^verbatim>\<open>pkg\<close>, \<^verbatim>\<open>tests\<close> does: the
  method returns, having made exactly these four directories and written the four
  fixed source files and between 10 and 30 test files; the main file holds the code
  synthesized for it from the generator state at entry.
\<close>
theorem C5_structure_step_writes_files:
  "(generate_structure texts self (fs, g) = Inr (fs', g') \<longrightarrow>
      dirs fs \<subseteq> dirs fs' \<and> dom (contents fs) \<subseteq> dom (contents fs') \<and>
      path_join (repo_path self) (first_directory self) \<in> dirs fs' \<and>
      path_join (repo_path self) (first_file self) \<in> dom (contents fs')) \<and>
   (generate_structure_branch self = Cli \<and> language_ext (language self) = Inr ext \<and>
    fs_wf fs \<and> repo_path self \<in> dirs fs \<and> repo_path self \<noteq> [] \<and>
    (\<forall>d\<in>set [''cmd'', ''internal'', ''pkg'', ''tests''].
        path_join (repo_path self) d \<notin> dirs fs \<and>
        path_join (repo_path self) d \<notin> dom (contents fs)) \<longrightarrow>
    (\<exists>fs2 g2 n. generate_structure texts self (fs, g) = Inr (fs2, g2) \<and>
      dirs fs2 = dirs fs \<union> path_join (repo_path self) ` set [''cmd'', ''internal'', ''pkg'', ''tests''] \<and>
      10 \<le> n \<and> n \<le> 30 \<and>
      dom (contents fs2) = dom (contents fs) \<union>
        path_join (repo_path self) `
          (set [''cmd/main'' @ ext, ''internal/commands'' @ ext, ''internal/config'' @ ext,
                ''pkg/utils'' @ ext] \<union>
           (\<lambda>i. ''tests/test'' @ str_of_nat i @ ext) ` {0..<n}) \<and>
      contents fs2 (path_join (repo_path self) (''cmd/main'' @ ext))
        = Some (fst (generate_code self 300 ''cli_main'' g))))"
proof (rule conjI; rule impI)
  assume "generate_structure texts self (fs, g) = Inr (fs', g')"
  then show "dirs fs \<subseteq> dirs fs' \<and> dom (contents fs) \<subseteq> dom (contents fs') \<and>
      path_join (repo_path self) (first_directory self) \<in> dirs fs' \<and>
      path_join (repo_path self) (first_file self) \<in> dom (contents fs')"
    by (rule generate_structure_effect)
next
  assume h: "generate_structure_branch self = Cli \<and> language_ext (language self) = Inr ext \<and>
    fs_wf fs \<and> repo_path self \<in> dirs fs \<and> repo_path self \<noteq> [] \<and>
    (\<forall>d\<in>set [''cmd'', ''internal'', ''pkg'', ''tests''].
        path_join (repo_path self) d \<notin> dirs fs \<and>
        path_join (repo_path self) d \<notin> dom (contents fs))"
  then have "generate_structure texts self = generate_cli_structure self"
    by (simp add: generate_structure_def)
  moreover from h have "language_ext (language self) = Inr ext" "fs_wf fs"
    "repo_path self \<in> dirs fs" "repo_path self \<noteq> []"
    "\<forall>d\<in>set [''cmd'', ''internal'', ''pkg'', ''tests''].
        path_join (repo_path self) d \<notin> dirs fs \<and>
        path_join (repo_path self) d \<notin> dom (contents fs)"
    by blast+
  ultimately show "\<exists>fs2 g2 n. generate_structure texts self (fs, g) = Inr (fs2, g2) \<and>
      dirs fs2 = dirs fs \<union> path_join (repo_path self) ` set [''cmd'', ''internal'', ''pkg'', ''tests''] \<and>
      10 \<le> n \<and> n \<le> 30 \<and>
      dom (contents fs2) = dom (contents fs) \<union>
        path_join (repo_path self) `
          (set [''cmd/main'' @ ext, ''internal/commands'' @ ext, ''internal/config'' @ ext,
                ''pkg/utils'' @ ext] \<union>
           (\<lambda>i. ''tests/test'' @ str_of_nat i @ ext) ` {0..<n}) \<and>
      contents fs2 (path_join (repo_path self) (''cmd/main'' @ ext))
        = Some (fst (generate_code self 300 ''cli_main'' g))"
    using cli_structure_spec [of self ext fs g] by simp
qed

lemma example_cli_run:
  "\<exists>fs' g'. generate_structure texts example_generator (fresh_fs, sconst 0) = Inr (fs', g') \<and>
      contents fs' ''/out/repo-05001-build-tool/cmd/main.py''
        = Some (fst (generate_code example_generator 300 ''cli_main'' (sconst 0)))"
proof -
  have "generate_structure texts example_generator = generate_cli_structure example_generator"
    by (simp add: generate_structure_def example_branch)
  moreover from cli_structure_spec [OF example_ext fresh_fs_wf fresh_fs_repo, of "sconst 0"]
  obtain fs' g' where "generate_cli_structure example_generator (fresh_fs, sconst 0) = Inr (fs', g')"
    and "contents fs' (path_join (repo_path example_generator) (''cmd/main'' @ ''.py''))
        = Some (fst (generate_code example_generator 300 ''cli_main'' (sconst 0)))"
    by blast
  moreover have "path_join (repo_path example_generator) (''cmd/main'' @ ''.py'')
      = ''/out/repo-05001-build-tool/cmd/main.py''"
    by (simp add: example_generator_def path_join_def)
  ultimately show ?thesis by simp
qed

theorem C5_witness:
  "(generate_structure_branch example_generator = Cli \<and>
    language_ext (language example_generator) = Inr ''.py'' \<and> fs_wf fresh_fs \<and>
    repo_path example_generator \<in> dirs fresh_fs \<and> repo_path example_generator \<noteq> [] \<and>
    path_join (repo_path example_generator) ''cmd'' \<notin> dirs fresh_fs \<union> dom (contents fresh_fs) \<and>
    path_join (repo_path example_generator) ''internal'' \<notin> dirs fresh_fs \<union> dom (contents fresh_fs) \<and>
    path_join (repo_path example_generator) ''pkg'' \<notin> dirs fresh_fs \<union> dom (contents fresh_fs) \<and>
    path_join (repo_path example_generator) ''tests'' \<notin> dirs fresh_fs \<union> dom (contents fresh_fs)) \<and>
   (\<exists>fs' g'. generate_structure (\<lambda>name self. name) example_generator (fresh_fs, sconst 0)
                = Inr (fs', g') \<and>
      dirs fresh_fs \<subseteq> dirs fs' \<and>
      ''/out/repo-05001-build-tool/cmd'' \<in> dirs fs' \<and>
      ''/out/repo-05001-build-tool/cmd/main.py'' \<in> dom (contents fs'))"
proof -
  let ?texts = "\<lambda>(name::string) (self::RepoGenerator). name"
  have hyp: "generate_structure_branch example_generator = Cli \<and>
    language_ext (language example_generator) = Inr ''.py'' \<and> fs_wf fresh_fs \<and>
    repo_path example_generator \<in> dirs fresh_fs \<and> repo_path example_generator \<noteq> [] \<and>
    (\<forall>d\<in>set [''cmd'', ''internal'', ''pkg'', ''tests''].
        path_join (repo_path example_generator) d \<notin> dirs fresh_fs \<and>
        path_join (repo_path example_generator) d \<notin> dom (contents fresh_fs))"
    by (intro conjI example_branch example_ext fresh_fs_wf fresh_fs_repo)
  have "\<exists>fs2 g2. generate_structure ?texts example_generator (fresh_fs, sconst 0) = Inr (fs2, g2)"
  proof -
    from C5_structure_step_writes_files
           [of ?texts example_generator fresh_fs "sconst 0" fresh_fs "sconst 0" "''.py''",
            THEN conjunct2, THEN mp, OF hyp]
    obtain fs2 g2 n where
      "generate_structure ?texts example_generator (fresh_fs, sconst 0) = Inr (fs2, g2) \<and>
       dirs fs2 = dirs fresh_fs \<union>
           path_join (repo_path example_generator) ` set [''cmd'', ''internal'', ''pkg'', ''tests''] \<and>
       10 \<le> n \<and> n \<le> 30 \<and>
       dom (contents fs2) = dom (contents fresh_fs) \<union>
        path_join (repo_path example_generator) `
          (set [''cmd/main'' @ ''.py'', ''internal/commands'' @ ''.py'', ''internal/config'' @ ''.py'',
                ''pkg/utils'' @ ''.py''] \<union>
           (\<lambda>i. ''tests/test'' @ str_of_nat i @ ''.py'') ` {0..<n}) \<and>
       contents fs2 (path_join (repo_path example_generator) (''cmd/main'' @ ''.py''))
        = Some (fst (generate_code example_generator 300 ''cli_main'' (sconst 0)))"
      by (elim exE)
    then have "generate_structure ?texts example_generator (fresh_fs, sconst 0) = Inr (fs2, g2)"
      by (rule conjunct1)
    then show ?thesis by (intro exI)
  qed
  then obtain fs2 g2 where
    r: "generate_structure ?texts example_generator (fresh_fs, sconst 0) = Inr (fs2, g2)"
    by (elim exE)
  from C5_structure_step_writes_files
         [of ?texts example_generator fresh_fs "sconst 0" fs2 g2 "''.py''",
          THEN conjunct1, THEN mp, OF r]
  have e: "dirs fresh_fs \<subseteq> dirs fs2 \<and> dom (contents fresh_fs) \<subseteq> dom (contents fs2) \<and>
      path_join (repo_path example_generator) (first_directory example_generator) \<in> dirs fs2 \<and>
      path_join (repo_path example_generator) (first_file example_generator) \<in> dom (contents fs2)" .
  have fd: "path_join (repo_path example_generator) (first_directory example_generator)
              = ''/out/repo-05001-build-tool/cmd''"
    by (simp add: first_directory_def example_branch) (simp add: example_generator_def path_join_def)
  have "structure_ext example_generator = ''.py''"
    by (simp add: structure_ext_def example_ext)
  then have ff: "path_join (repo_path example_generator) (first_file example_generator)
              = ''/out/repo-05001-build-tool/cmd/main.py''"
    by (simp add: first_file_def example_branch) (simp add: example_generator_def path_join_def)
  have concl: "generate_structure ?texts example_generator (fresh_fs, sconst 0) = Inr (fs2, g2) \<and>
      dirs fresh_fs \<subseteq> dirs fs2 \<and>
      ''/out/repo-05001-build-tool/cmd'' \<in> dirs fs2 \<and>
      ''/out/repo-05001-build-tool/cmd/main.py'' \<in> dom (contents fs2)"
    using r e unfolding fd ff by (intro conjI) (elim conjE, assumption)+
  have fresh4: "path_join (repo_path example_generator) ''cmd'' \<notin> dirs fresh_fs \<union> dom (contents fresh_fs)"
    "path_join (repo_path example_generator) ''internal'' \<notin> dirs fresh_fs \<union> dom (contents fresh_fs)"
    "path_join (repo_path example_generator) ''pkg'' \<notin> dirs fresh_fs \<union> dom (contents fresh_fs)"
    "path_join (repo_path example_generator) ''tests'' \<notin> dirs fresh_fs \<union> dom (contents fresh_fs)"
    by (simp_all add: example_generator_def fresh_fs_def path_join_def)
  show ?thesis
    by (intro conjI exI [of _ fs2] exI [of _ g2] example_branch example_ext fresh_fs_wf
        fresh_fs_repo(1) fresh_fs_repo(2) fresh4 concl [THEN conjunct1]
        concl [THEN conjunct2, THEN conjunct1]
        concl [THEN conjunct2, THEN conjunct2, THEN conjunct1]
        concl [THEN conjunct2, THEN conjunct2, THEN conjunct2])
qed

theorem C5_counterexample:
  "(case generate_structure (\<lambda>name self. name) example_generator (fresh_fs, sconst 0) of
      Inl e \<Rightarrow> False
    | Inr (fs', g') \<Rightarrow>
        ''/out/repo-05001-build-tool/cmd/main.py'' \<notin> dom (contents fresh_fs) \<and>
        contents fs' ''/out/repo-05001-build-tool/cmd/main.py''
          = Some (fst (generate_code example_generator 300 ''cli_main'' (sconst 0))))"
proof -
  from example_cli_run [of "\<lambda>name self. name"]
  obtain fs' g' where "generate_structure (\<lambda>name self. name) example_generator (fresh_fs, sconst 0)
        = Inr (fs', g')"
    and "contents fs' ''/out/repo-05001-build-tool/cmd/main.py''
        = Some (fst (generate_code example_generator 300 ''cli_main'' (sconst 0)))"
    by blast
  moreover have "''/out/repo-05001-build-tool/cmd/main.py'' \<notin> dom (contents fresh_fs)"
    by (simp add: fresh_fs_def)
  ultimately show ?thesis by simp
qed

end
